theory Spec2Isabelle
  imports Main
begin

section \<open>Data model\<close>

text \<open>
  The module under study is the session store \<^verbatim>\<open>ESStore\<close> of \<^verbatim>\<open>src/index.js\<close>,
  in its revision with expiry timers (lines 164 to 319: constructor, \<^verbatim>\<open>pSid\<close>,
  \<^verbatim>\<open>get\<close>, \<^verbatim>\<open>set\<close>, \<^verbatim>\<open>destroy\<close>, \<^verbatim>\<open>initialSessionTimeout\<close>,
  \<^verbatim>\<open>sessionTimeout\<close>, \<^verbatim>\<open>touch\<close>). The earlier revision in the same file has the
  same \<^verbatim>\<open>get\<close>, \<^verbatim>\<open>set\<close> and \<^verbatim>\<open>destroy\<close> and no timers.

  Session objects and stored documents are JSON data. An object is an association list
  in property order; numbers are integers (every number the module itself produces or
  compares is a count of milliseconds).
\<close>

datatype json =
    JNull
  | JBool bool
  | JNum int
  | JStr string
  | JArr "json list"
  | JObj "(string \<times> json) list"

type_synonym obj = "(string \<times> json) list"

text \<open>Reading a property: \<open>None\<close> is JavaScript's \<^verbatim>\<open>undefined\<close>.\<close>

definition obj_get :: "obj \<Rightarrow> string \<Rightarrow> json option" where
  "obj_get ob k = map_of ob k"

text \<open>
  The assignment \<^verbatim>\<open>o[k] = v\<close>: an existing property keeps its place and gets the new
  value, a new property is added last.
\<close>

fun obj_put :: "string \<Rightarrow> json \<Rightarrow> obj \<Rightarrow> obj" where
  "obj_put k v [] = [(k, v)]"
| "obj_put k v ((k', v') # kvs) =
     (if k = k' then (k, v) # kvs else (k', v') # obj_put k v kvs)"

text \<open>
  The store's options, after the constructor has merged the caller's options into the
  defaults (\<^verbatim>\<open>util._extend(defaults, options || {})\<close>).
\<close>

record options =
  host :: string
  index :: string
  typeName :: string
  ttl :: int
  prefix :: string
  logLevel :: string

record user_options =
  u_host :: "string option"
  u_index :: "string option"
  u_typeName :: "string option"
  u_ttl :: "int option"
  u_prefix :: "string option"
  u_logLevel :: "string option"

definition defaults :: options where
  "defaults = \<lparr> host = ''localhost:9200'', index = ''express'', typeName = ''session'',
      ttl = 1000 * 60 * 60, prefix = '''', logLevel = ''trace'' \<rparr>"

definition util_extend :: "options \<Rightarrow> user_options \<Rightarrow> options" where
  "util_extend d u = \<lparr>
      host = (case u_host u of Some x \<Rightarrow> x | None \<Rightarrow> host d),
      index = (case u_index u of Some x \<Rightarrow> x | None \<Rightarrow> index d),
      typeName = (case u_typeName u of Some x \<Rightarrow> x | None \<Rightarrow> typeName d),
      ttl = (case u_ttl u of Some x \<Rightarrow> x | None \<Rightarrow> ttl d),
      prefix = (case u_prefix u of Some x \<Rightarrow> x | None \<Rightarrow> prefix d),
      logLevel = (case u_logLevel u of Some x \<Rightarrow> x | None \<Rightarrow> logLevel d) \<rparr>"

subsection \<open>The document-store client\<close>

text \<open>
  Every method of the client takes a request and a continuation \<^verbatim>\<open>(e, r) => ...\<close>
  that it calls later, in a turn of its own. A request is recorded with the continuation
  it was given; the continuation's body is a function of this theory (\<open>get_cb\<close>,
  \<open>set_cb\<close>, ...), applied to the reply when it arrives.
\<close>

datatype script = Script (inline: string) (lang: string) (params_now: int)

datatype es_request =
    Get_req string string string
  | Index_req string string string obj
  | Delete_req string string string
  | Search_req string string
  | Update_req string string string script

datatype es_error = NotFound | StoreError string

text \<open>A callback argument of the caller: a function of the caller's, or not a function.\<close>

datatype callback = UserFn nat | NoopFn | NotFn

fun is_function :: "callback \<Rightarrow> bool" where
  "is_function (UserFn _) = True"
| "is_function NoopFn = True"
| "is_function NotFn = False"

datatype continuation =
    K_get callback
  | K_set callback
  | K_destroy callback
  | K_search
  | K_touch callback

text \<open>
  The reply body of a fetch, \<open>None\<close> for \<^verbatim>\<open>undefined\<close>. \<open>get\<close> reads the body only
  when the client reports no error, and then the body is the document found:
  \<^verbatim>\<open>r._source\<close> is its content.
\<close>

datatype doc = Doc (doc_id: string) (source: obj)

text \<open>
  The reply to a search. A property that the body does not have is \<open>None\<close>: the body of
  a failed search has no \<^verbatim>\<open>hits\<close>.
\<close>

datatype hit = Hit (hit_id: string)
datatype hits_obj = Hits_obj (hits_hits: "hit list option")
datatype search_body = Search_body (body_hits: "hits_obj option")

subsection \<open>The process\<close>

text \<open>
  An armed one-shot timer of the runtime. The only \<^verbatim>\<open>setTimeout\<close> of the module arms
  the closure \<^verbatim>\<open>function () { self.destroy(sid) }\<close>, so a timer is its handle, the
  \<^verbatim>\<open>sid\<close> its closure captured, the time it was armed at and its delay.
\<close>

datatype timer = Timer (t_handle: nat) (t_sid: string) (t_armed: int) (t_delay: int)

text \<open>The arguments of a call of the caller's callback.\<close>

datatype cb_args =
    Cb_none
  | Cb_err "es_error option"
  | Cb_err_res "es_error option" "json option"
  | Cb_session obj

datatype effect =
    Sent es_request continuation
  | SetTimeout nat string int
  | ClearTimeout nat
  | Invoke nat cb_args
  | ConsoleError es_error

datatype js_error = TypeError

text \<open>
  The state of the process: the store object (\<^verbatim>\<open>this.options\<close>, \<^verbatim>\<open>this.timeouts\<close>),
  the runtime's armed timers, the caller's session objects by reference, and the effects
  so far, in order.
\<close>

record world =
  opts :: options
  timeouts :: "string \<rightharpoonup> nat"
  timers :: "timer list"
  next_timer :: nat
  heap :: "nat \<rightharpoonup> obj"
  trace :: "effect list"

definition emit :: "effect \<Rightarrow> world \<Rightarrow> world" where
  "emit ev w = w\<lparr>trace := trace w @ [ev]\<rparr>"

text \<open>Calling a callback value with arguments; calling what is no function throws.\<close>

fun call :: "callback \<Rightarrow> cb_args \<Rightarrow> world \<Rightarrow> js_error + world" where
  "call (UserFn c) args w = Inr (emit (Invoke c args) w)"
| "call NoopFn args w = Inr w"
| "call NotFn args w = Inl TypeError"

section \<open>The store's operations\<close>

definition pSid :: "options \<Rightarrow> string \<Rightarrow> string" where
  "pSid os sid = prefix os @ sid"

subsection \<open>get\<close>

text \<open>
  \<^verbatim>\<open>ToNumber\<close> of a property value, \<open>None\<close> for \<^verbatim>\<open>NaN\<close>. The conversion of
  strings, arrays and objects (through their string form) is the language's and is taken
  as the parameter \<open>str_num\<close>.
\<close>

fun to_number :: "(json \<Rightarrow> int option) \<Rightarrow> json option \<Rightarrow> int option" where
  "to_number str_num None = None"
| "to_number str_num (Some (JNum n)) = Some n"
| "to_number str_num (Some JNull) = Some 0"
| "to_number str_num (Some (JBool b)) = Some (if b then 1 else 0)"
| "to_number str_num (Some v) = str_num v"

text \<open>
  \<^verbatim>\<open>new Date().getTime() - r._source.timestamp > this.options.ttl\<close>; a comparison
  with \<^verbatim>\<open>NaN\<close> is false.
\<close>

definition expired :: "(json \<Rightarrow> int option) \<Rightarrow> options \<Rightarrow> int \<Rightarrow> obj \<Rightarrow> bool" where
  "expired str_num os now src =
     (case to_number str_num (obj_get src ''timestamp'') of
        None \<Rightarrow> False
      | Some t \<Rightarrow> now - t > ttl os)"

definition get_call :: "string \<Rightarrow> callback \<Rightarrow> world \<Rightarrow> world" where
  "get_call sid cb w =
     emit (Sent (Get_req (index (opts w)) (typeName (opts w)) (pSid (opts w) sid)) (K_get cb)) w"

definition get_cb ::
  "(json \<Rightarrow> int option) \<Rightarrow> callback \<Rightarrow> es_error option \<Rightarrow> doc option \<Rightarrow> int \<Rightarrow> world
     \<Rightarrow> js_error + world" where
  "get_cb str_num cb0 e r now w =
     (let cb = (if \<not> is_function cb0 then NoopFn else cb0) in
      if e \<noteq> None then call cb Cb_none w
      else case r of
        None \<Rightarrow> call cb Cb_none w
      | Some d \<Rightarrow>
          if expired str_num (opts w) now (source d) then call cb Cb_none w
          else call cb (Cb_session (source d)) w)"

subsection \<open>set\<close>

text \<open>
  \<^verbatim>\<open>sess.timestamp = new Date().getTime()\<close> writes into the caller's object, which
  is \<open>heap w p\<close> for the reference \<open>p\<close> that was passed; a reference to no object
  is a \<^verbatim>\<open>sess\<close> that is \<^verbatim>\<open>undefined\<close>, and the assignment throws. The request's
  body is the object as it is when the request is made.
\<close>

definition set_call :: "string \<Rightarrow> nat \<Rightarrow> callback \<Rightarrow> int \<Rightarrow> world \<Rightarrow> js_error + world" where
  "set_call sid p cb now w =
     (case heap w p of
        None \<Rightarrow> Inl TypeError
      | Some sess \<Rightarrow>
          (let sess' = obj_put ''timestamp'' (JNum now) sess;
               w1 = w\<lparr>heap := (heap w)(p \<mapsto> sess')\<rparr>
           in Inr (emit (Sent (Index_req (index (opts w1)) (typeName (opts w1))
                                  (pSid (opts w1) sid) sess') (K_set cb)) w1)))"

definition set_cb ::
  "callback \<Rightarrow> es_error option \<Rightarrow> json option \<Rightarrow> world \<Rightarrow> js_error + world" where
  "set_cb cb e r w = (if is_function cb then call cb (Cb_err e) w else Inr w)"

subsection \<open>destroy\<close>

definition destroy_call :: "string \<Rightarrow> callback \<Rightarrow> world \<Rightarrow> world" where
  "destroy_call sid cb w =
     emit (Sent (Delete_req (index (opts w)) (typeName (opts w)) (pSid (opts w) sid))
             (K_destroy cb)) w"

definition destroy_cb ::
  "callback \<Rightarrow> es_error option \<Rightarrow> json option \<Rightarrow> world \<Rightarrow> js_error + world" where
  "destroy_cb cb e r w = (if is_function cb then call cb (Cb_err_res e r) w else Inr w)"

subsection \<open>sessionTimeout\<close>

definition clearTimeout :: "nat \<Rightarrow> world \<Rightarrow> world" where
  "clearTimeout h w =
     emit (ClearTimeout h) (w\<lparr>timers := filter (\<lambda>t. t_handle t \<noteq> h) (timers w)\<rparr>)"

text \<open>
  \<^verbatim>\<open>setTimeout(function () { self.destroy(sid) }, delay)\<close> at the time \<open>now\<close>: the
  new timer's handle and the state with the timer armed.
\<close>

definition setTimeout :: "string \<Rightarrow> int \<Rightarrow> int \<Rightarrow> world \<Rightarrow> nat \<times> world" where
  "setTimeout sid delay now w =
     (next_timer w,
      emit (SetTimeout (next_timer w) sid delay)
        (w\<lparr>timers := timers w @ [Timer (next_timer w) sid now delay],
           next_timer := Suc (next_timer w)\<rparr>))"

definition sessionTimeout :: "string \<Rightarrow> int \<Rightarrow> world \<Rightarrow> world" where
  "sessionTimeout sid now w =
     (let key = pSid (opts w) sid;
          w1 = (case timeouts w key of Some h \<Rightarrow> clearTimeout h w | None \<Rightarrow> w);
          (h', w2) = setTimeout sid (ttl (opts w1)) now w1
      in w2\<lparr>timeouts := (timeouts w2)(key \<mapsto> h')\<rparr>)"

subsection \<open>initialSessionTimeout\<close>

definition initialSessionTimeout_call :: "world \<Rightarrow> world" where
  "initialSessionTimeout_call w =
     (let w1 = w\<lparr>timeouts := Map.empty\<rparr>
      in emit (Sent (Search_req (index (opts w1)) (typeName (opts w1))) K_search) w1)"

text \<open>
  The continuation of the search. After logging an error it goes on to read
  \<^verbatim>\<open>r.hits.hits\<close>; reading a property of \<^verbatim>\<open>undefined\<close> throws.
\<close>

definition initialSessionTimeout_cb ::
  "es_error option \<Rightarrow> search_body option \<Rightarrow> int \<Rightarrow> world \<Rightarrow> js_error + world" where
  "initialSessionTimeout_cb e r now w =
     (let w1 = (case e of Some err \<Rightarrow> emit (ConsoleError err) w | None \<Rightarrow> w) in
      case r of
        None \<Rightarrow> Inl TypeError
      | Some b \<Rightarrow>
          (case body_hits b of
             None \<Rightarrow> Inl TypeError
           | Some ho \<Rightarrow>
               (case hits_hits ho of
                  None \<Rightarrow> Inr w1
                | Some hs \<Rightarrow> Inr (fold (\<lambda>hit. sessionTimeout (hit_id hit) now) hs w1))))"

subsection \<open>touch\<close>

definition touch_inline :: string where
  "touch_inline = ''ctx._source.cookie.expires = Instant.ofEpochMilli(params.now).plusMillis(ctx._source.cookie.originalMaxAge).toString();''"

definition touch_call :: "string \<Rightarrow> nat \<Rightarrow> callback \<Rightarrow> int \<Rightarrow> world \<Rightarrow> world" where
  "touch_call sid p cb now w =
     (let w1 = sessionTimeout sid now w
      in emit (Sent (Update_req (index (opts w1)) (typeName (opts w1)) (pSid (opts w1) sid)
                       (Script touch_inline ''painless'' now)) (K_touch cb)) w1)"

definition touch_cb ::
  "callback \<Rightarrow> es_error option \<Rightarrow> json option \<Rightarrow> world \<Rightarrow> js_error + world" where
  "touch_cb cb e r w = (if is_function cb then call cb (Cb_err_res e r) w else Inr w)"

subsection \<open>The constructor\<close>

definition ESStore :: "user_options \<Rightarrow> (nat \<rightharpoonup> obj) \<Rightarrow> world" where
  "ESStore u h =
     initialSessionTimeout_call
       \<lparr> opts = util_extend defaults u, timeouts = Map.empty, timers = [], next_timer = 0,
         heap = h, trace = [] \<rparr>"

section \<open>The runtime\<close>

text \<open>
  A timer that fires is disarmed by the runtime (it is one-shot) and its closure runs:
  \<^verbatim>\<open>self.destroy(sid)\<close>, with no callback. A handle that is not armed fires nothing.
  A timer records the delay it was armed with; when it fires is the runtime's choice, and
  \<open>fire\<close> is a turn that can be taken at any time.
\<close>

definition fire :: "nat \<Rightarrow> world \<Rightarrow> world" where
  "fire h w =
     (case find (\<lambda>t. t_handle t = h) (timers w) of
        None \<Rightarrow> w
      | Some t \<Rightarrow>
          destroy_call (t_sid t) NotFn
            (w\<lparr>timers := filter (\<lambda>t. t_handle t \<noteq> h) (timers w)\<rparr>))"

text \<open>
  One turn of the event loop: the caller calls a method of the store, a reply of the
  client reaches its continuation, a timer fires, or the caller writes to one of its
  session objects. The caller's callback is the last thing a continuation does, so
  whatever the callback does to the store is a later turn. Replies are not matched with
  the requests that were sent: any reply may arrive in any turn, which allows every
  behaviour of the client and more.
\<close>

datatype action =
    Call_get string callback
  | Call_set string nat callback
  | Call_destroy string callback
  | Call_touch string nat callback
  | Reply_get callback "es_error option" "doc option"
  | Reply_set callback "es_error option" "json option"
  | Reply_destroy callback "es_error option" "json option"
  | Reply_touch callback "es_error option" "json option"
  | Reply_search "es_error option" "search_body option"
  | Fire nat
  | Caller_writes nat obj

fun exec :: "(json \<Rightarrow> int option) \<Rightarrow> int \<Rightarrow> action \<Rightarrow> world \<Rightarrow> js_error + world" where
  "exec sn now (Call_get sid cb) w = Inr (get_call sid cb w)"
| "exec sn now (Call_set sid p cb) w = set_call sid p cb now w"
| "exec sn now (Call_destroy sid cb) w = Inr (destroy_call sid cb w)"
| "exec sn now (Call_touch sid p cb) w = Inr (touch_call sid p cb now w)"
| "exec sn now (Reply_get cb e r) w = get_cb sn cb e r now w"
| "exec sn now (Reply_set cb e r) w = set_cb cb e r w"
| "exec sn now (Reply_destroy cb e r) w = destroy_cb cb e r w"
| "exec sn now (Reply_touch cb e r) w = touch_cb cb e r w"
| "exec sn now (Reply_search e r) w = initialSessionTimeout_cb e r now w"
| "exec sn now (Fire h) w = Inr (fire h w)"
| "exec sn now (Caller_writes p ob) w = Inr (w\<lparr>heap := (heap w)(p \<mapsto> ob)\<rparr>)"

text \<open>A run is a list of turns with their times; a turn that throws ends it.\<close>

fun run :: "(json \<Rightarrow> int option) \<Rightarrow> (int \<times> action) list \<Rightarrow> world \<Rightarrow> js_error + world" where
  "run sn [] w = Inr w"
| "run sn ((now, a) # as) w =
     (case exec sn now a w of Inl err \<Rightarrow> Inl err | Inr w' \<Rightarrow> run sn as w')"

section \<open>The document store\<close>

text \<open>
  The index behind the client, as far as the store's requests go: the documents of the
  configured index and type by id. \<open>fault\<close> is a failure of the transport, if any.
\<close>

type_synonym docs = "string \<rightharpoonup> obj"

definition es_get :: "es_error option \<Rightarrow> string \<Rightarrow> docs \<Rightarrow> es_error option \<times> doc option" where
  "es_get fault k d =
     (case fault of
        Some err \<Rightarrow> (Some err, None)
      | None \<Rightarrow> (case d k of None \<Rightarrow> (Some NotFound, None) | Some src \<Rightarrow> (None, Some (Doc k src))))"

text \<open>Indexing replaces the whole document.\<close>

definition es_index ::
  "es_error option \<Rightarrow> string \<Rightarrow> obj \<Rightarrow> docs \<Rightarrow> (es_error option \<times> json option) \<times> docs" where
  "es_index fault k body d =
     (case fault of
        Some err \<Rightarrow> ((Some err, None), d)
      | None \<Rightarrow> ((None, Some (JObj [(''_id'', JStr k)])), d(k \<mapsto> body)))"

text \<open>Deleting a document that is not there is reported as not found.\<close>

definition es_delete ::
  "es_error option \<Rightarrow> string \<Rightarrow> docs \<Rightarrow> (es_error option \<times> json option) \<times> docs" where
  "es_delete fault k d =
     (case fault of
        Some err \<Rightarrow> ((Some err, None), d)
      | None \<Rightarrow>
          (case d k of
             None \<Rightarrow> ((Some NotFound, Some (JObj [(''found'', JBool False)])), d)
           | Some src \<Rightarrow> ((None, Some (JObj [(''found'', JBool True)])), d(k := None))))"

text \<open>
  A search returns hits for documents of the index; which of them, and in which order, is
  the server's choice, given as the list \<open>ids\<close>.
\<close>

definition es_search ::
  "es_error option \<Rightarrow> string list \<Rightarrow> docs \<Rightarrow> es_error option \<times> search_body option" where
  "es_search fault ids d =
     (case fault of
        Some err \<Rightarrow> (Some err, None)
      | None \<Rightarrow>
          (None, Some (Search_body (Some (Hits_obj
             (Some (map Hit (filter (\<lambda>k. d k \<noteq> None) ids))))))))"

subsection \<open>The script language\<close>

text \<open>
  An update request carries a script as text, and the server runs the text. The fragment
  of the script language modelled here has one statement, an assignment
  \<^verbatim>\<open>path = expression;\<close>, where an expression is a name followed by field accesses
  \<^verbatim>\<open>.f\<close> and method calls \<^verbatim>\<open>.m(args)\<close>. A text outside the fragment is rejected.
\<close>

datatype tok = T_id string | T_dot | T_lpar | T_rpar | T_eq | T_semi | T_comma

definition ident_char :: "char \<Rightarrow> bool" where
  "ident_char c \<longleftrightarrow>
     c \<in> set ''abcdefghijklmnopqrstuvwxyzABCDEFGHIJKLMNOPQRSTUVWXYZ0123456789_''"

definition punct :: "char \<Rightarrow> tok option" where
  "punct c =
     (if c = CHR ''.'' then Some T_dot
      else if c = CHR ''('' then Some T_lpar
      else if c = CHR '')'' then Some T_rpar
      else if c = CHR ''='' then Some T_eq
      else if c = CHR '';'' then Some T_semi
      else if c = CHR '','' then Some T_comma
      else None)"

definition flush :: "string \<Rightarrow> tok list \<Rightarrow> tok list" where
  "flush acc ts = (if acc = [] then ts else T_id acc # ts)"

text \<open>\<open>tokens acc s\<close>: the tokens of \<open>s\<close>, after the name \<open>acc\<close> read so far.\<close>

fun tokens :: "string \<Rightarrow> string \<Rightarrow> tok list option" where
  "tokens acc [] = Some (flush acc [])"
| "tokens acc (c # cs) =
     (if ident_char c then tokens (acc @ [c]) cs
      else if c = CHR '' '' then map_option (flush acc) (tokens [] cs)
      else case punct c of
             None \<Rightarrow> None
           | Some t \<Rightarrow> map_option (\<lambda>ts. flush acc (t # ts)) (tokens [] cs))"

datatype pexpr = PVar string | PField pexpr string | PCall pexpr string "pexpr list"

datatype pstmt = PAssign pexpr pexpr

text \<open>
  The parser takes fuel, one unit for each token it may look at; \<open>parse_script\<close> gives
  it the number of tokens, which is enough for every text.
\<close>

fun parse_expr :: "nat \<Rightarrow> tok list \<Rightarrow> (pexpr \<times> tok list) option"
  and parse_post :: "nat \<Rightarrow> pexpr \<Rightarrow> tok list \<Rightarrow> (pexpr \<times> tok list) option"
  and parse_args :: "nat \<Rightarrow> tok list \<Rightarrow> (pexpr list \<times> tok list) option" where
  "parse_expr 0 ts = None"
| "parse_expr (Suc n) ts =
     (case ts of T_id x # ts' \<Rightarrow> parse_post n (PVar x) ts' | _ \<Rightarrow> None)"
| "parse_post 0 e ts = None"
| "parse_post (Suc n) e ts =
     (case ts of
        T_dot # T_id m # T_lpar # T_rpar # ts' \<Rightarrow> parse_post n (PCall e m []) ts'
      | T_dot # T_id m # T_lpar # ts' \<Rightarrow>
          (case parse_args n ts' of
             None \<Rightarrow> None
           | Some (as, ts'') \<Rightarrow> parse_post n (PCall e m as) ts'')
      | T_dot # T_id f # ts' \<Rightarrow> parse_post n (PField e f) ts'
      | _ \<Rightarrow> Some (e, ts))"
| "parse_args 0 ts = None"
| "parse_args (Suc n) ts =
     (case parse_expr n ts of
        None \<Rightarrow> None
      | Some (a, T_comma # ts') \<Rightarrow>
          (case parse_args n ts' of None \<Rightarrow> None | Some (as, ts'') \<Rightarrow> Some (a # as, ts''))
      | Some (a, T_rpar # ts') \<Rightarrow> Some ([a], ts')
      | Some _ \<Rightarrow> None)"

definition parse_script :: "string \<Rightarrow> pstmt option" where
  "parse_script text =
     (case tokens [] text of
        None \<Rightarrow> None
      | Some ts \<Rightarrow>
          (case parse_expr (length ts) ts of
             Some (l, T_eq # ts') \<Rightarrow>
               (case parse_expr (length ts) ts' of
                  Some (r, [T_semi]) \<Rightarrow> Some (PAssign l r)
                | _ \<Rightarrow> None)
           | _ \<Rightarrow> None))"

text \<open>
  The values of the script: JSON data, an instant (in epoch milliseconds), a class, and
  the two variables the server binds, \<^verbatim>\<open>ctx\<close> and \<^verbatim>\<open>params\<close>. A missing key of a
  map reads as \<^verbatim>\<open>null\<close>; anything that throws in the server is \<open>None\<close>. \<open>fmt\<close> is the
  string form of an instant.
\<close>

datatype pval = V_json json | V_instant int | V_class string | V_ctx | V_params

definition global_var :: "string \<Rightarrow> pval option" where
  "global_var x =
     (if x = ''ctx'' then Some V_ctx
      else if x = ''params'' then Some V_params
      else if x = ''Instant'' then Some (V_class ''Instant'')
      else None)"

definition get_field :: "obj \<Rightarrow> int \<Rightarrow> pval \<Rightarrow> string \<Rightarrow> pval option" where
  "get_field src now v f =
     (case v of
        V_ctx \<Rightarrow> if f = ''_source'' then Some (V_json (JObj src)) else None
      | V_params \<Rightarrow> Some (V_json (if f = ''now'' then JNum now else JNull))
      | V_json (JObj ob) \<Rightarrow> Some (V_json (case map_of ob f of None \<Rightarrow> JNull | Some x \<Rightarrow> x))
      | _ \<Rightarrow> None)"

definition invoke_method ::
  "(int \<Rightarrow> string) \<Rightarrow> pval \<Rightarrow> string \<Rightarrow> pval option list \<Rightarrow> pval option" where
  "invoke_method fmt v m args =
     (case v of
        V_class c \<Rightarrow>
          (case args of
             [Some (V_json (JNum n))] \<Rightarrow>
               if c = ''Instant'' \<and> m = ''ofEpochMilli'' then Some (V_instant n) else None
           | _ \<Rightarrow> None)
      | V_instant n \<Rightarrow>
          (case args of
             [] \<Rightarrow> if m = ''toString'' then Some (V_json (JStr (fmt n))) else None
           | [Some (V_json (JNum k))] \<Rightarrow>
               if m = ''plusMillis'' then Some (V_instant (n + k)) else None
           | _ \<Rightarrow> None)
      | _ \<Rightarrow> None)"

fun eval_expr :: "(int \<Rightarrow> string) \<Rightarrow> obj \<Rightarrow> int \<Rightarrow> pexpr \<Rightarrow> pval option" where
  "eval_expr fmt src now (PVar x) = global_var x"
| "eval_expr fmt src now (PField e f) =
     (case eval_expr fmt src now e of None \<Rightarrow> None | Some v \<Rightarrow> get_field src now v f)"
| "eval_expr fmt src now (PCall e m as) =
     (case eval_expr fmt src now e of
        None \<Rightarrow> None
      | Some v \<Rightarrow> invoke_method fmt v m (map (eval_expr fmt src now) as))"

text \<open>The path an assignment writes to, and the write: every map on the way must exist.\<close>

fun lhs_path :: "pexpr \<Rightarrow> string list option" where
  "lhs_path (PVar x) = Some [x]"
| "lhs_path (PField e f) = map_option (\<lambda>p. p @ [f]) (lhs_path e)"
| "lhs_path (PCall e m as) = None"

fun put_path :: "string list \<Rightarrow> json \<Rightarrow> obj \<Rightarrow> obj option" where
  "put_path [] v ob = None"
| "put_path [k] v ob = Some (obj_put k v ob)"
| "put_path (k # ks) v ob =
     (case map_of ob k of
        Some (JObj inner) \<Rightarrow> map_option (\<lambda>inner'. obj_put k (JObj inner') ob) (put_path ks v inner)
      | _ \<Rightarrow> None)"

text \<open>Running a script text on a document's source: the new source, or \<open>None\<close>.\<close>

definition painless :: "(int \<Rightarrow> string) \<Rightarrow> int \<Rightarrow> obj \<Rightarrow> string \<Rightarrow> obj option" where
  "painless fmt now src text =
     (case parse_script text of
        None \<Rightarrow> None
      | Some (PAssign l r) \<Rightarrow>
          (case (lhs_path l, eval_expr fmt src now r) of
             (Some (c # s # k # ks), Some (V_json v)) \<Rightarrow>
               if c = ''ctx'' \<and> s = ''_source'' then put_path (k # ks) v src else None
           | _ \<Rightarrow> None))"

definition es_update ::
  "(int \<Rightarrow> string) \<Rightarrow> es_error option \<Rightarrow> string \<Rightarrow> script \<Rightarrow> docs
     \<Rightarrow> (es_error option \<times> json option) \<times> docs" where
  "es_update fmt fault k sc d =
     (case fault of
        Some err \<Rightarrow> ((Some err, None), d)
      | None \<Rightarrow>
          (case d k of
             None \<Rightarrow> ((Some NotFound, None), d)
           | Some src \<Rightarrow>
               if lang sc = ''painless'' then
                 (case painless fmt (params_now sc) src (inline sc) of
                    None \<Rightarrow> ((Some (StoreError ''script_exception''), None), d)
                  | Some src' \<Rightarrow> ((None, Some (JObj [(''_id'', JStr k)])), d(k \<mapsto> src')))
               else ((Some (StoreError ''script_exception''), None), d)))"

section \<open>The store and the server together\<close>

text \<open>
  The server holds the documents of every index and type. It serves a request of the
  client against them and answers with an error or a body of the request's kind.
\<close>

type_synonym cluster = "string \<times> string \<Rightarrow> docs"

datatype reply =
    Doc_reply "doc option"
  | Ack_reply "json option"
  | Search_reply "search_body option"

fun es_serve ::
  "(int \<Rightarrow> string) \<Rightarrow> es_error option \<Rightarrow> string list \<Rightarrow> es_request \<Rightarrow> cluster
     \<Rightarrow> (es_error option \<times> reply) \<times> cluster" where
  "es_serve fmt fault ids (Get_req i t k) c =
     (case es_get fault k (c (i, t)) of (e, r) \<Rightarrow> ((e, Doc_reply r), c))"
| "es_serve fmt fault ids (Index_req i t k body) c =
     (case es_index fault k body (c (i, t)) of ((e, r), d') \<Rightarrow> ((e, Ack_reply r), c((i, t) := d')))"
| "es_serve fmt fault ids (Delete_req i t k) c =
     (case es_delete fault k (c (i, t)) of ((e, r), d') \<Rightarrow> ((e, Ack_reply r), c((i, t) := d')))"
| "es_serve fmt fault ids (Search_req i t) c =
     (case es_search fault ids (c (i, t)) of (e, r) \<Rightarrow> ((e, Search_reply r), c))"
| "es_serve fmt fault ids (Update_req i t k sc) c =
     (case es_update fmt fault k sc (c (i, t)) of ((e, r), d') \<Rightarrow> ((e, Ack_reply r), c((i, t) := d')))"

text \<open>The requests the store has sent so far, each with the continuation it was given.\<close>

fun sent_of :: "effect \<Rightarrow> (es_request \<times> continuation) list" where
  "sent_of (Sent rq k) = [(rq, k)]"
| "sent_of ev = []"

definition sent :: "world \<Rightarrow> (es_request \<times> continuation) list" where
  "sent w = concat (map sent_of (trace w))"

text \<open>
  A reply reaches the continuation that was given with the request. (The server answers
  with a body of the request's kind, so the last equation is never used.)
\<close>

fun resume ::
  "(json \<Rightarrow> int option) \<Rightarrow> continuation \<Rightarrow> es_error option \<Rightarrow> reply \<Rightarrow> int \<Rightarrow> world
     \<Rightarrow> js_error + world" where
  "resume sn (K_get cb) e (Doc_reply r) now w = get_cb sn cb e r now w"
| "resume sn (K_set cb) e (Ack_reply r) now w = set_cb cb e r w"
| "resume sn (K_destroy cb) e (Ack_reply r) now w = destroy_cb cb e r w"
| "resume sn (K_touch cb) e (Ack_reply r) now w = touch_cb cb e r w"
| "resume sn K_search e (Search_reply r) now w = initialSessionTimeout_cb e r now w"
| "resume sn k e r now w = Inr w"

text \<open>
  A turn of the store and the server together: a turn of the process, or the delivery of
  a request the store has sent (the \<open>n\<close>-th), which the server serves, with a transport
  failure or without, and whose reply runs the request's continuation.
\<close>

datatype sys_action = Process action | Deliver nat "es_error option" "string list"

fun sys_exec ::
  "(json \<Rightarrow> int option) \<Rightarrow> (int \<Rightarrow> string) \<Rightarrow> int \<Rightarrow> sys_action \<Rightarrow> world \<times> cluster
     \<Rightarrow> js_error + world \<times> cluster" where
  "sys_exec sn fmt now (Process a) (w, c) =
     (case exec sn now a w of Inl err \<Rightarrow> Inl err | Inr w' \<Rightarrow> Inr (w', c))"
| "sys_exec sn fmt now (Deliver n fault ids) (w, c) =
     (if n < length (sent w) then
        (case sent w ! n of
           (rq, k) \<Rightarrow>
             (case es_serve fmt fault ids rq c of
                ((e, body), c') \<Rightarrow>
                  (case resume sn k e body now w of
                     Inl err \<Rightarrow> Inl err
                   | Inr w' \<Rightarrow> Inr (w', c'))))
      else Inr (w, c))"

fun sys_run ::
  "(json \<Rightarrow> int option) \<Rightarrow> (int \<Rightarrow> string) \<Rightarrow> (int \<times> sys_action) list \<Rightarrow> world \<times> cluster
     \<Rightarrow> js_error + world \<times> cluster" where
  "sys_run sn fmt [] s = Inr s"
| "sys_run sn fmt ((now, a) # as) s =
     (case sys_exec sn fmt now a s of Inl err \<Rightarrow> Inl err | Inr s' \<Rightarrow> sys_run sn fmt as s')"

section \<open>Properties of states\<close>

text \<open>
  What the specification says of a record, in its own terms. A record's write timestamp
  is the number in its \<^verbatim>\<open>timestamp\<close> property; the record is stale when its write
  timestamp is older than now minus the TTL. A record written by the store has a write
  timestamp, and one written before the store kept timestamps has none.
\<close>

definition write_timestamp :: "obj \<Rightarrow> int option" where
  "write_timestamp src = (case map_of src ''timestamp'' of Some (JNum t) \<Rightarrow> Some t | _ \<Rightarrow> None)"

definition stale :: "options \<Rightarrow> int \<Rightarrow> obj \<Rightarrow> bool" where
  "stale os now src \<longleftrightarrow> (\<exists>t. write_timestamp src = Some t \<and> t < now - ttl os)"

definition numeric_timestamp :: "obj \<Rightarrow> bool" where
  "numeric_timestamp src \<longleftrightarrow>
     (case map_of src ''timestamp'' of None \<Rightarrow> True | Some (JNum t) \<Rightarrow> True | Some v \<Rightarrow> False)"

text \<open>
  What \<open>get\<close> is to report for a session id, \<open>None\<close> for absent: absent when the fetch
  fails, when there is no record under the id's storage key, and when the record is
  stale; the record's source otherwise.
\<close>

definition get_spec :: "options \<Rightarrow> cluster \<Rightarrow> es_error option \<Rightarrow> string \<Rightarrow> int \<Rightarrow> obj option" where
  "get_spec os c fault sid now =
     (case fault of
        Some err \<Rightarrow> None
      | None \<Rightarrow>
          (case c (index os, typeName os) (prefix os @ sid) of
             None \<Rightarrow> None
           | Some src \<Rightarrow> if stale os now src then None else Some src))"

text \<open>
  Every armed timer is the one that \<^verbatim>\<open>this.timeouts\<close> holds for its storage key, and
  handles are not reused: every handle in use is below the next one, and no two keys
  hold the same handle. The armed timers of a storage key are those whose closure
  destroys that key.
\<close>

definition timers_inv :: "world \<Rightarrow> bool" where
  "timers_inv w \<longleftrightarrow>
     distinct (map t_handle (timers w)) \<and>
     (\<forall>t \<in> set (timers w).
        t_handle t < next_timer w \<and> timeouts w (pSid (opts w) (t_sid t)) = Some (t_handle t)) \<and>
     (\<forall>k h. timeouts w k = Some h \<longrightarrow> h < next_timer w) \<and>
     (\<forall>k k' h. timeouts w k = Some h \<and> timeouts w k' = Some h \<longrightarrow> k = k')"

definition live_timers :: "world \<Rightarrow> string \<Rightarrow> timer list" where
  "live_timers w k = filter (\<lambda>t. pSid (opts w) (t_sid t) = k) (timers w)"

text \<open>The options of the scenarios: a TTL of one second, and the same with a prefix.\<close>

definition ttl_1000 :: user_options where
  "ttl_1000 = \<lparr> u_host = None, u_index = None, u_typeName = None, u_ttl = Some 1000,
      u_prefix = None, u_logLevel = None \<rparr>"

definition ttl_1000_prefixed :: user_options where
  "ttl_1000_prefixed = ttl_1000\<lparr> u_prefix := Some ''sess:'' \<rparr>"

text \<open>A string form of instants for the scenarios, given where they need it.\<close>

definition fmt_scenario :: "int \<Rightarrow> string" where
  "fmt_scenario n = (if n = 60900 then ''1970-01-01T00:01:00.900Z'' else ''other'')"

text \<open>A server with no documents.\<close>

definition no_docs :: cluster where
  "no_docs = (\<lambda>it. Map.empty)"

section \<open>Lemmas\<close>

lemma map_of_obj_put: "map_of (obj_put k v ob) = (map_of ob)(k \<mapsto> v)"
  by (induction ob) auto

lemma obj_get_obj_put:
  "obj_get (obj_put k v ob) k' = (if k' = k then Some v else obj_get ob k')"
  by (simp add: obj_get_def map_of_obj_put)

lemma emit_fields [simp]:
  "opts (emit ev w) = opts w" "timeouts (emit ev w) = timeouts w"
  "timers (emit ev w) = timers w" "next_timer (emit ev w) = next_timer w"
  "heap (emit ev w) = heap w" "trace (emit ev w) = trace w @ [ev]"
  by (simp_all add: emit_def)

lemma sessionTimeout_opts [simp]: "opts (sessionTimeout sid now w) = opts w"
  by (simp add: sessionTimeout_def setTimeout_def clearTimeout_def Let_def split: option.splits)

lemma sessionTimeout_heap [simp]: "heap (sessionTimeout sid now w) = heap w"
  by (simp add: sessionTimeout_def setTimeout_def clearTimeout_def Let_def split: option.splits)

lemma sessionTimeout_next [simp]: "next_timer (sessionTimeout sid now w) = Suc (next_timer w)"
  by (simp add: sessionTimeout_def setTimeout_def clearTimeout_def Let_def split: option.splits)

lemma sessionTimeout_timeouts:
  "timeouts (sessionTimeout sid now w) = (timeouts w)(pSid (opts w) sid \<mapsto> next_timer w)"
  by (simp add: sessionTimeout_def setTimeout_def clearTimeout_def Let_def split: option.splits)

lemma sessionTimeout_timers:
  "timers (sessionTimeout sid now w) =
     filter (\<lambda>t. timeouts w (pSid (opts w) sid) \<noteq> Some (t_handle t)) (timers w)
       @ [Timer (next_timer w) sid now (ttl (opts w))]"
  by (auto simp: sessionTimeout_def setTimeout_def clearTimeout_def Let_def
      split: option.splits intro: filter_cong)

lemma sessionTimeout_trace:
  "trace (sessionTimeout sid now w) =
     trace w @ (case timeouts w (pSid (opts w) sid) of Some h \<Rightarrow> [ClearTimeout h] | None \<Rightarrow> [])
       @ [SetTimeout (next_timer w) sid (ttl (opts w))]"
  by (simp add: sessionTimeout_def setTimeout_def clearTimeout_def Let_def split: option.splits)

lemma sessionTimeout_inv: "timers_inv w \<Longrightarrow> timers_inv (sessionTimeout sid now w)"
  unfolding timers_inv_def
  by (auto simp: sessionTimeout_timers sessionTimeout_timeouts distinct_map_filter less_Suc_eq)

lemma fold_sessionTimeout_inv:
  "timers_inv w \<Longrightarrow> timers_inv (fold (\<lambda>hit. sessionTimeout (hit_id hit) now) hs w)"
  by (induction hs arbitrary: w) (simp_all add: sessionTimeout_inv)

lemma fold_sessionTimeout_opts [simp]:
  "opts (fold (\<lambda>hit. sessionTimeout (hit_id hit) now) hs w) = opts w"
  by (induction hs arbitrary: w) simp_all

lemma timers_inv_emit [simp]: "timers_inv (emit ev w) = timers_inv w"
  by (simp add: timers_inv_def)

lemma call_fields:
  "call cb args w = Inr w' \<Longrightarrow>
     opts w' = opts w \<and> timeouts w' = timeouts w \<and> timers w' = timers w \<and>
     next_timer w' = next_timer w \<and> heap w' = heap w"
  by (cases cb) auto

lemma call_inv: "call cb args w = Inr w' \<Longrightarrow> timers_inv w' = timers_inv w"
  by (drule call_fields) (simp add: timers_inv_def)

lemma fire_opts [simp]: "opts (fire h w) = opts w"
  by (simp add: fire_def destroy_call_def split: option.splits)

lemma fire_inv: "timers_inv w \<Longrightarrow> timers_inv (fire h w)"
  by (auto simp: fire_def destroy_call_def timers_inv_def distinct_map_filter split: option.splits)

lemma exec_inv:
  assumes "exec sn now a w = Inr w'" and "timers_inv w"
  shows "timers_inv w' \<and> opts w' = opts w"
proof (cases a)
  case (Call_get sid cb)
  with assms show ?thesis by (auto simp: get_call_def)
next
  case (Call_set sid p cb)
  with assms show ?thesis
    by (auto simp: set_call_def Let_def timers_inv_def split: option.splits)
next
  case (Call_destroy sid cb)
  with assms show ?thesis by (auto simp: destroy_call_def)
next
  case (Call_touch sid p cb)
  with assms show ?thesis by (auto simp: touch_call_def Let_def sessionTimeout_inv)
next
  case (Reply_get cb e r)
  with assms show ?thesis
    by (auto simp: get_cb_def Let_def call_inv split: option.splits if_splits dest: call_fields)
next
  case (Reply_set cb e r)
  with assms show ?thesis
    by (auto simp: set_cb_def call_inv split: if_splits dest: call_fields)
next
  case (Reply_destroy cb e r)
  with assms show ?thesis
    by (auto simp: destroy_cb_def call_inv split: if_splits dest: call_fields)
next
  case (Reply_touch cb e r)
  with assms show ?thesis
    by (auto simp: touch_cb_def call_inv split: if_splits dest: call_fields)
next
  case (Reply_search e r)
  with assms show ?thesis
    by (auto simp: initialSessionTimeout_cb_def Let_def fold_sessionTimeout_inv
        split: option.splits)
next
  case (Fire h)
  with assms show ?thesis by (auto simp: fire_inv)
next
  case (Caller_writes p ob)
  with assms show ?thesis by (auto simp: timers_inv_def)
qed

lemma run_inv:
  "run sn acts w = Inr w' \<Longrightarrow> timers_inv w \<Longrightarrow> timers_inv w' \<and> opts w' = opts w"
proof (induction acts arbitrary: w)
  case Nil
  then show ?case by simp
next
  case (Cons x acts)
  obtain now a where x: "x = (now, a)" by (cases x)
  from Cons.prems(1) x obtain w1 where
    e: "exec sn now a w = Inr w1" and r: "run sn acts w1 = Inr w'"
    by (auto split: sum.splits)
  from exec_inv[OF e Cons.prems(2)] have "timers_inv w1" "opts w1 = opts w" by simp_all
  with Cons.IH[OF r] show ?case by simp
qed

lemma ESStore_inv: "timers_inv (ESStore u h)"
  by (simp add: ESStore_def initialSessionTimeout_call_def Let_def timers_inv_def)

lemma length_filter_le_1:
  "distinct (map f xs) \<Longrightarrow> \<forall>x \<in> set xs. P x \<longrightarrow> f x = c \<Longrightarrow> length (filter P xs) \<le> 1"
proof (induction xs)
  case Nil
  then show ?case by simp
next
  case (Cons x xs)
  show ?case
  proof (cases "P x")
    case True
    have "filter P xs = []"
    proof (rule ccontr)
      assume "filter P xs \<noteq> []"
      then obtain y where "y \<in> set xs" "P y" by (auto simp: filter_empty_conv)
      with Cons.prems True have "f y = f x" by simp
      moreover from Cons.prems(1) have "f x \<notin> f ` set xs" by simp
      ultimately show False using \<open>y \<in> set xs\<close> by (metis imageI)
    qed
    with True show ?thesis by simp
  next
    case False
    with Cons show ?thesis by simp
  qed
qed

lemma inv_at_most_one: "timers_inv w \<Longrightarrow> length (live_timers w k) \<le> 1"
  unfolding live_timers_def timers_inv_def
  by (rule length_filter_le_1[where f = t_handle and c = "the (timeouts w k)"]) auto

lemma inv_sessionTimeout_live:
  assumes "timers_inv w"
  shows "live_timers (sessionTimeout sid now w) (pSid (opts w) sid) =
           [Timer (next_timer w) sid now (ttl (opts w))]"
proof -
  have "filter (\<lambda>t. pSid (opts w) (t_sid t) = pSid (opts w) sid)
          (filter (\<lambda>t. timeouts w (pSid (opts w) sid) \<noteq> Some (t_handle t)) (timers w)) = []"
    using assms by (auto simp: timers_inv_def filter_empty_conv)
  then show ?thesis
    by (simp add: live_timers_def sessionTimeout_timers)
qed

lemma ESStore_ttl_1000 [simp]:
  "opts (ESStore ttl_1000 h) = \<lparr> host = ''localhost:9200'', index = ''express'',
      typeName = ''session'', ttl = 1000, prefix = '''', logLevel = ''trace'' \<rparr>"
  by (simp add: ESStore_def initialSessionTimeout_call_def util_extend_def defaults_def
      ttl_1000_def)

lemma exec_opts: "exec sn now a w = Inr w' \<Longrightarrow> opts w' = opts w"
  by (cases a)
    (auto simp: get_call_def set_call_def destroy_call_def touch_call_def get_cb_def set_cb_def
      destroy_cb_def touch_cb_def initialSessionTimeout_cb_def Let_def
      split: option.splits if_splits dest: call_fields)

lemma run_opts: "run sn acts w = Inr w' \<Longrightarrow> opts w' = opts w"
proof (induction acts arbitrary: w)
  case Nil
  then show ?case by simp
next
  case (Cons x acts)
  obtain now a where x: "x = (now, a)" by (cases x)
  from Cons.prems x obtain w1 where
    e: "exec sn now a w = Inr w1" and r: "run sn acts w1 = Inr w'"
    by (auto split: sum.splits)
  from Cons.IH[OF r] exec_opts[OF e] show ?case by simp
qed

lemma find_distinct:
  "distinct (map f xs) \<Longrightarrow> x \<in> set xs \<Longrightarrow> find (\<lambda>y. f y = f x) xs = Some x"
  by (induction xs) (auto simp: image_iff)

lemma filter_distinct:
  "distinct (map f xs) \<Longrightarrow> x \<in> set xs \<Longrightarrow>
     set (filter (\<lambda>y. f y \<noteq> f x) xs) = set xs - {x}"
  by (induction xs) (auto simp: image_iff)

lemma touch_call_fields:
  "opts (touch_call sid p cb now w) = opts w"
  "timers (touch_call sid p cb now w) = timers (sessionTimeout sid now w)"
  "timeouts (touch_call sid p cb now w) = timeouts (sessionTimeout sid now w)"
  "next_timer (touch_call sid p cb now w) = Suc (next_timer w)"
  "trace (touch_call sid p cb now w) =
     trace (sessionTimeout sid now w) @
       [Sent (Update_req (index (opts w)) (typeName (opts w)) (pSid (opts w) sid)
                (Script touch_inline ''painless'' now)) (K_touch cb)]"
  by (simp_all add: touch_call_def Let_def)

lemma touch_call_inv: "timers_inv w \<Longrightarrow> timers_inv (touch_call sid p cb now w)"
  by (simp add: touch_call_def Let_def sessionTimeout_inv)

lemma live_timers_touch:
  "live_timers (touch_call sid p cb now w) k = live_timers (sessionTimeout sid now w) k"
  by (simp add: live_timers_def touch_call_fields)

lemma ESStore_fields:
  "timers (ESStore u h) = []" "timeouts (ESStore u h) = Map.empty" "heap (ESStore u h) = h"
  "next_timer (ESStore u h) = 0"
  "trace (ESStore u h) =
     [Sent (Search_req (index (opts (ESStore u h))) (typeName (opts (ESStore u h)))) K_search]"
  by (simp_all add: ESStore_def initialSessionTimeout_call_def)

lemma sessionTimeout_other_key:
  assumes "timers_inv w" and "k \<noteq> pSid (opts w) sid"
  shows "live_timers (sessionTimeout sid now w) k = live_timers w k"
proof -
  have "filter (\<lambda>t. pSid (opts w) (t_sid t) = k)
          (filter (\<lambda>t. timeouts w (pSid (opts w) sid) \<noteq> Some (t_handle t)) (timers w))
        = filter (\<lambda>t. pSid (opts w) (t_sid t) = k) (timers w)"
    unfolding filter_filter
  proof (rule filter_cong[OF refl])
    fix t assume t: "t \<in> set (timers w)"
    show "(timeouts w (pSid (opts w) sid) \<noteq> Some (t_handle t) \<and> pSid (opts w) (t_sid t) = k)
            = (pSid (opts w) (t_sid t) = k)"
    proof (cases "pSid (opts w) (t_sid t) = k")
      case True
      from assms(1) t have "timeouts w (pSid (opts w) (t_sid t)) = Some (t_handle t)"
        by (simp add: timers_inv_def)
      with assms True have "timeouts w (pSid (opts w) sid) \<noteq> Some (t_handle t)"
        unfolding timers_inv_def by metis
      with True show ?thesis by simp
    next
      case False
      then show ?thesis by simp
    qed
  qed
  with assms(2) show ?thesis
    by (simp add: live_timers_def sessionTimeout_timers)
qed

lemma fold_sessionTimeout_live:
  assumes "timers_inv w"
  shows "\<forall>hit \<in> set hs. \<exists>h.
           live_timers (fold (\<lambda>hit. sessionTimeout (hit_id hit) now) hs w)
             (pSid (opts w) (hit_id hit)) = [Timer h (hit_id hit) now (ttl (opts w))]"
proof (induction hs rule: rev_induct)
  case Nil
  then show ?case by simp
next
  case (snoc x xs)
  let ?w = "fold (\<lambda>hit. sessionTimeout (hit_id hit) now) xs w"
  have inv: "timers_inv ?w" by (rule fold_sessionTimeout_inv[OF assms])
  have o: "opts ?w = opts w" by simp
  show ?case
  proof
    fix hit assume hit: "hit \<in> set (xs @ [x])"
    show "\<exists>h. live_timers (fold (\<lambda>hit. sessionTimeout (hit_id hit) now) (xs @ [x]) w)
             (pSid (opts w) (hit_id hit)) = [Timer h (hit_id hit) now (ttl (opts w))]"
    proof (cases "hit_id hit = hit_id x")
      case True
      with inv_sessionTimeout_live[OF inv, of "hit_id x" now] o show ?thesis by auto
    next
      case False
      then have "pSid (opts ?w) (hit_id hit) \<noteq> pSid (opts ?w) (hit_id x)"
        by (simp add: pSid_def)
      from sessionTimeout_other_key[OF inv this, of now] False hit snoc.IH o
      show ?thesis by auto
    qed
  qed
qed

lemma recovery_scan_arms_each_hit:
  assumes "timers_inv w"
  shows "\<exists>w'. initialSessionTimeout_cb None (Some (Search_body (Some (Hits_obj (Some hs))))) now w
           = Inr w'
     \<and> (\<forall>hit \<in> set hs. \<exists>h.
           live_timers w' (pSid (opts w) (hit_id hit)) = [Timer h (hit_id hit) now (ttl (opts w))])"
  using fold_sessionTimeout_live[OF assms, of hs now]
  by (simp add: initialSessionTimeout_cb_def)

lemma parse_touch_inline:
  "parse_script touch_inline =
     Some (PAssign
       (PField (PField (PField (PVar ''ctx'') ''_source'') ''cookie'') ''expires'')
       (PCall
          (PCall
             (PCall (PVar ''Instant'') ''ofEpochMilli'' [PField (PVar ''params'') ''now''])
             ''plusMillis''
             [PField (PField (PField (PVar ''ctx'') ''_source'') ''cookie'') ''originalMaxAge''])
          ''toString'' []))"
  by code_simp

lemma painless_touch_inline:
  "painless fmt now src touch_inline =
     (case map_of src ''cookie'' of
        Some (JObj cookie) \<Rightarrow>
          (case map_of cookie ''originalMaxAge'' of
             Some (JNum age) \<Rightarrow>
               Some (obj_put ''cookie'' (JObj (obj_put ''expires'' (JStr (fmt (now + age))) cookie)) src)
           | _ \<Rightarrow> None)
      | _ \<Rightarrow> None)"
  by (simp add: painless_def parse_touch_inline global_var_def get_field_def invoke_method_def
      split: option.splits json.splits)

lemma sent_emit:
  "sent (emit ev w) = sent w @ sent_of ev"
  by (simp add: sent_def)

lemma sent_append:
  "trace w' = trace w @ evs \<Longrightarrow> sent w' = sent w @ concat (map sent_of evs)"
  by (simp add: sent_def)

lemma call_trace: "call cb args w = Inr w' \<Longrightarrow> \<exists>evs. trace w' = trace w @ evs"
  by (cases cb) auto

lemma fold_sessionTimeout_trace:
  "\<exists>evs. trace (fold (\<lambda>hit. sessionTimeout (hit_id hit) now) hs w) = trace w @ evs"
proof (induction hs arbitrary: w)
  case Nil
  then show ?case by simp
next
  case (Cons x hs)
  obtain evs where "trace (fold (\<lambda>hit. sessionTimeout (hit_id hit) now) hs
      (sessionTimeout (hit_id x) now w)) = trace (sessionTimeout (hit_id x) now w) @ evs"
    using Cons.IH by blast
  then show ?case by (simp add: sessionTimeout_trace)
qed

lemma initialSessionTimeout_cb_trace:
  assumes "initialSessionTimeout_cb e r now w = Inr w'"
  shows "\<exists>evs. trace w' = trace w @ evs"
proof -
  define w1 where "w1 = (case e of Some err \<Rightarrow> emit (ConsoleError err) w | None \<Rightarrow> w)"
  have w1: "\<exists>evs. trace w1 = trace w @ evs"
    by (cases e) (simp_all add: w1_def)
  from assms have "w' = w1 \<or> (\<exists>hs. w' = fold (\<lambda>hit. sessionTimeout (hit_id hit) now) hs w1)"
    by (auto simp: initialSessionTimeout_cb_def Let_def w1_def split: option.splits)
  then show ?thesis
  proof
    assume "w' = w1"
    with w1 show ?thesis by simp
  next
    assume "\<exists>hs. w' = fold (\<lambda>hit. sessionTimeout (hit_id hit) now) hs w1"
    then obtain hs where "w' = fold (\<lambda>hit. sessionTimeout (hit_id hit) now) hs w1" by blast
    with fold_sessionTimeout_trace[of now hs w1] w1 show ?thesis by auto
  qed
qed

lemma exec_trace: "exec sn now a w = Inr w' \<Longrightarrow> \<exists>evs. trace w' = trace w @ evs"
proof (cases a)
  case (Reply_search e r)
  assume "exec sn now a w = Inr w'"
  with Reply_search show ?thesis by (simp add: initialSessionTimeout_cb_trace)
next
  case (Call_touch sid p cb)
  assume "exec sn now a w = Inr w'"
  with Call_touch show ?thesis by (auto simp: touch_call_fields sessionTimeout_trace)
next
  case (Fire h)
  assume "exec sn now a w = Inr w'"
  with Fire show ?thesis by (auto simp: fire_def destroy_call_def split: option.splits)
qed (auto simp: get_call_def set_call_def destroy_call_def get_cb_def set_cb_def
      destroy_cb_def touch_cb_def Let_def
      split: option.splits if_splits dest: call_trace)

lemma resume_opts: "resume sn k e r now w = Inr w' \<Longrightarrow> opts w' = opts w"
  by (cases "(sn, k, e, r, now, w)" rule: resume.cases)
    (auto simp: get_cb_def set_cb_def destroy_cb_def touch_cb_def initialSessionTimeout_cb_def
      Let_def split: option.splits if_splits dest: call_fields)

lemma resume_trace: "resume sn k e r now w = Inr w' \<Longrightarrow> \<exists>evs. trace w' = trace w @ evs"
proof (cases "(sn, k, e, r, now, w)" rule: resume.cases)
  case (5 sn' e' r' now' w0)
  assume "resume sn k e r now w = Inr w'"
  with 5 have "exec sn now (Reply_search e r') w = Inr w'" by simp
  then show ?thesis by (rule exec_trace)
qed (auto simp: get_cb_def set_cb_def destroy_cb_def touch_cb_def Let_def
      split: option.splits if_splits dest: call_trace)

lemma sys_exec_keeps:
  assumes "sys_exec sn fmt now a (w, c) = Inr (w', c')"
  shows "opts w' = opts w \<and> (\<exists>evs. trace w' = trace w @ evs)"
proof (cases a)
  case (Process x)
  with assms exec_opts exec_trace show ?thesis
    by (auto split: sum.splits)
next
  case (Deliver n fault ids)
  with assms resume_opts resume_trace show ?thesis
    by (auto split: if_splits prod.splits sum.splits)
qed

lemma sys_run_keeps:
  "sys_run sn fmt acts (w, c) = Inr (w', c') \<Longrightarrow>
     opts w' = opts w \<and> (\<exists>evs. trace w' = trace w @ evs)"
proof (induction acts arbitrary: w c)
  case Nil
  then show ?case by simp
next
  case (Cons x acts)
  obtain now a where x: "x = (now, a)" by (cases x)
  from Cons.prems x obtain w1 c1 where
    e: "sys_exec sn fmt now a (w, c) = Inr (w1, c1)"
    and r: "sys_run sn fmt acts (w1, c1) = Inr (w', c')"
    by (auto split: sum.splits)
  from sys_exec_keeps[OF e] Cons.IH[OF r] show ?case by auto
qed

lemma sys_run_sent:
  assumes "sys_run sn fmt acts (w, c) = Inr (w', c')" and "n < length (sent w)"
  shows "n < length (sent w') \<and> sent w' ! n = sent w ! n"
proof -
  from sys_run_keeps[OF assms(1)] obtain evs where "trace w' = trace w @ evs" by blast
  then have "sent w' = sent w @ concat (map sent_of evs)" by (rule sent_append)
  with assms(2) show ?thesis by (simp add: nth_append)
qed

lemma expired_numeric:
  "numeric_timestamp src \<Longrightarrow> expired sn os now src \<longleftrightarrow> stale os now src"
  by (auto simp: numeric_timestamp_def expired_def stale_def write_timestamp_def obj_get_def
      split: option.splits json.splits)

lemma sent_get_call:
  "sent (get_call sid cb w) =
     sent w @ [(Get_req (index (opts w)) (typeName (opts w)) (prefix (opts w) @ sid), K_get cb)]"
  by (simp add: get_call_def sent_emit pSid_def)

lemma get_cb_total:
  "\<exists>w'. get_cb sn cb e r now w = Inr w' \<and>
         (trace w' = trace w \<or>
          (\<exists>c'. trace w' = trace w @ [Invoke c' Cb_none]) \<or>
          (\<exists>c' d'. r = Some d' \<and> trace w' = trace w @ [Invoke c' (Cb_session (source d'))]))"
  by (cases cb) (auto simp: get_cb_def Let_def emit_def split: option.splits)

lemma set_call_result:
  assumes "heap w p = Some P" and "set_call sid p cb now w = Inr w1"
  shows "opts w1 = opts w"
    and "heap w1 p = Some (obj_put ''timestamp'' (JNum now) P)"
    and "sent w1 = sent w @ [(Index_req (index (opts w)) (typeName (opts w))
                                (prefix (opts w) @ sid) (obj_put ''timestamp'' (JNum now) P),
                              K_set cb)]"
  using assms by (auto simp: set_call_def Let_def sent_def pSid_def emit_def)

lemma sent_ESStore [simp]:
  "sent (ESStore u h) = [(Search_req (index (opts (ESStore u h))) (typeName (opts (ESStore u h))), K_search)]"
  by (simp add: sent_def ESStore_fields)

lemma sent_sessionTimeout [simp]: "sent (sessionTimeout sid now w) = sent w"
  by (auto simp: sent_def sessionTimeout_trace split: option.splits)

lemma sent_touch_call:
  "sent (touch_call sid p cb now w) =
     sent w @ [(Update_req (index (opts w)) (typeName (opts w)) (prefix (opts w) @ sid)
                  (Script touch_inline ''painless'' now), K_touch cb)]"
  by (simp add: touch_call_def Let_def sent_emit pSid_def)

section \<open>The claims\<close>

text \<open>
  C1. \<open>get\<close> sends one fetch, for the storage key of the session id (the prefix
  followed by the id) in the configured index and type. Whatever turns are taken before
  the fetch is served, and whatever the server holds then, the callback is called with
  what the specification names (\<open>get_spec\<close>): absent, that is \<^verbatim>\<open>cb()\<close> with no session and
  no error, when the fetch fails, when there is no record under the key, and when the
  record's write timestamp is older than now minus the TTL; the stored record's source
  otherwise, as \<^verbatim>\<open>cb(null, source)\<close>. This is for a record whose \<^verbatim>\<open>timestamp\<close>, if it
  has one, is a number, as every record the store writes has. For any reply at all, an
  error or a reply that is \<^verbatim>\<open>undefined\<close> is reported absent, and whatever was passed as
  callback the continuation does not throw and the only calls it makes of the callback
  are \<^verbatim>\<open>cb()\<close> and \<^verbatim>\<open>cb(null, r._source)\<close>: no error value is passed.
\<close>

theorem get_reports:
  "sent (get_call sid (UserFn cb) w) =
      sent w @ [(Get_req (index (opts w)) (typeName (opts w)) (prefix (opts w) @ sid),
                 K_get (UserFn cb))]
   \<and> (sys_run sn fmt acts (get_call sid (UserFn cb) w, cl0) = Inr (w', cl)
       \<and> (\<forall>src. cl (index (opts w), typeName (opts w)) (prefix (opts w) @ sid) = Some src
                 \<longrightarrow> numeric_timestamp src)
      \<longrightarrow> sys_exec sn fmt now (Deliver (length (sent w)) fault ids) (w', cl) =
            Inr (emit (Invoke cb (case get_spec (opts w) cl fault sid now of
                                    None \<Rightarrow> Cb_none
                                  | Some src \<Rightarrow> Cb_session src)) w', cl))
   \<and> (e \<noteq> None \<or> r = None
      \<longrightarrow> get_cb sn (UserFn cb) e r now w2 = Inr (emit (Invoke cb Cb_none) w2))
   \<and> (\<exists>w3. get_cb sn cb0 e r now w2 = Inr w3 \<and>
         (trace w3 = trace w2 \<or>
          (\<exists>c'. trace w3 = trace w2 @ [Invoke c' Cb_none]) \<or>
          (\<exists>c' d'. r = Some d' \<and> trace w3 = trace w2 @ [Invoke c' (Cb_session (source d'))])))"
proof (intro conjI impI)
  show "sent (get_call sid (UserFn cb) w) =
      sent w @ [(Get_req (index (opts w)) (typeName (opts w)) (prefix (opts w) @ sid),
                 K_get (UserFn cb))]"
    by (rule sent_get_call)
next
  assume a: "sys_run sn fmt acts (get_call sid (UserFn cb) w, cl0) = Inr (w', cl)
       \<and> (\<forall>src. cl (index (opts w), typeName (opts w)) (prefix (opts w) @ sid) = Some src
                 \<longrightarrow> numeric_timestamp src)"
  let ?key = "prefix (opts w) @ sid"
  let ?rq = "Get_req (index (opts w)) (typeName (opts w)) ?key"
  have n: "length (sent w) < length (sent (get_call sid (UserFn cb) w))"
    by (simp add: sent_get_call)
  from a have r: "sys_run sn fmt acts (get_call sid (UserFn cb) w, cl0) = Inr (w', cl)"
    by simp
  from sys_run_sent[OF r n] have
    s: "length (sent w) < length (sent w')"
       "sent w' ! length (sent w) = (?rq, K_get (UserFn cb))"
    by (simp_all add: sent_get_call)
  from sys_run_keeps[OF r] have o: "opts w' = opts w"
    by (simp add: get_call_def)
  show "sys_exec sn fmt now (Deliver (length (sent w)) fault ids) (w', cl) =
            Inr (emit (Invoke cb (case get_spec (opts w) cl fault sid now of
                                    None \<Rightarrow> Cb_none
                                  | Some src \<Rightarrow> Cb_session src)) w', cl)"
  proof (cases fault)
    case (Some err)
    with s show ?thesis
      by (simp add: es_get_def get_cb_def Let_def get_spec_def)
  next
    case None
    show ?thesis
    proof (cases "cl (index (opts w), typeName (opts w)) ?key")
      case absent: None
      with None s show ?thesis
        by (simp add: es_get_def get_cb_def Let_def get_spec_def)
    next
      case (Some src)
      with a have "numeric_timestamp src" by blast
      then have "expired sn (opts w) now src \<longleftrightarrow> stale (opts w) now src"
        by (rule expired_numeric)
      with None Some s o show ?thesis
        by (simp add: es_get_def get_cb_def Let_def get_spec_def)
    qed
  qed
next
  assume "e \<noteq> None \<or> r = None"
  then show "get_cb sn (UserFn cb) e r now w2 = Inr (emit (Invoke cb Cb_none) w2)"
    by (auto simp: get_cb_def Let_def split: option.splits)
next
  show "\<exists>w3. get_cb sn cb0 e r now w2 = Inr w3 \<and>
         (trace w3 = trace w2 \<or>
          (\<exists>c'. trace w3 = trace w2 @ [Invoke c' Cb_none]) \<or>
          (\<exists>c' d'. r = Some d' \<and> trace w3 = trace w2 @ [Invoke c' (Cb_session (source d'))]))"
    by (rule get_cb_total)
qed

text \<open>
  The scenario of the TTL of one second: a record written at 0 is reported at 500 and
  absent at 1500, a failed fetch is absent, and so is an id with no record.
\<close>

theorem get_reports_witness:
  "sys_exec (\<lambda>v. None) (\<lambda>n. []) 500 (Deliver 1 None [])
       (get_call ''abc'' (UserFn 7) (ESStore ttl_1000 Map.empty),
        no_docs((''express'', ''session'') := [''abc'' \<mapsto> [(''user'', JNum 1), (''timestamp'', JNum 0)]]))
     = Inr (emit (Invoke 7 (Cb_session [(''user'', JNum 1), (''timestamp'', JNum 0)]))
              (get_call ''abc'' (UserFn 7) (ESStore ttl_1000 Map.empty)),
            no_docs((''express'', ''session'') := [''abc'' \<mapsto> [(''user'', JNum 1), (''timestamp'', JNum 0)]]))
   \<and> sys_exec (\<lambda>v. None) (\<lambda>n. []) 1500 (Deliver 1 None [])
       (get_call ''abc'' (UserFn 7) (ESStore ttl_1000 Map.empty),
        no_docs((''express'', ''session'') := [''abc'' \<mapsto> [(''user'', JNum 1), (''timestamp'', JNum 0)]]))
     = Inr (emit (Invoke 7 Cb_none) (get_call ''abc'' (UserFn 7) (ESStore ttl_1000 Map.empty)),
            no_docs((''express'', ''session'') := [''abc'' \<mapsto> [(''user'', JNum 1), (''timestamp'', JNum 0)]]))
   \<and> sys_exec (\<lambda>v. None) (\<lambda>n. []) 500 (Deliver 1 (Some (StoreError ''timeout'')) [])
       (get_call ''abc'' (UserFn 7) (ESStore ttl_1000 Map.empty),
        no_docs((''express'', ''session'') := [''abc'' \<mapsto> [(''user'', JNum 1), (''timestamp'', JNum 0)]]))
     = Inr (emit (Invoke 7 Cb_none) (get_call ''abc'' (UserFn 7) (ESStore ttl_1000 Map.empty)),
            no_docs((''express'', ''session'') := [''abc'' \<mapsto> [(''user'', JNum 1), (''timestamp'', JNum 0)]]))
   \<and> sys_exec (\<lambda>v. None) (\<lambda>n. []) 500 (Deliver 1 None [])
       (get_call ''abc'' (UserFn 7) (ESStore ttl_1000 Map.empty), no_docs)
     = Inr (emit (Invoke 7 Cb_none) (get_call ''abc'' (UserFn 7) (ESStore ttl_1000 Map.empty)),
            no_docs)"
proof -
  let ?w = "ESStore ttl_1000 Map.empty"
  let ?src = "[(''user'', JNum 1), (''timestamp'', JNum 0)]"
  let ?cl = "no_docs((''express'', ''session'') := [''abc'' \<mapsto> ?src])"
  have r: "sys_run (\<lambda>v. None) (\<lambda>n. []) [] (get_call ''abc'' (UserFn 7) ?w, cl)
             = Inr (get_call ''abc'' (UserFn 7) ?w, cl)" for cl
    by simp
  have num: "\<forall>src. ?cl (index (opts ?w), typeName (opts ?w)) (prefix (opts ?w) @ ''abc'') = Some src
                \<longrightarrow> numeric_timestamp src"
    by (simp add: numeric_timestamp_def)
  have num0: "\<forall>src. no_docs (index (opts ?w), typeName (opts ?w)) (prefix (opts ?w) @ ''abc'') = Some src
                \<longrightarrow> numeric_timestamp src"
    by (simp add: no_docs_def)
  have a: "sys_exec (\<lambda>v. None) (\<lambda>n. []) now (Deliver (length (sent ?w)) fault []) (get_call ''abc'' (UserFn 7) ?w, ?cl)
       = Inr (emit (Invoke 7 (case get_spec (opts ?w) ?cl fault ''abc'' now of
                                None \<Rightarrow> Cb_none | Some src \<Rightarrow> Cb_session src))
                (get_call ''abc'' (UserFn 7) ?w), ?cl)" for now fault
    using get_reports [of "''abc''" 7 ?w "\<lambda>v. None" "\<lambda>n. []" "[]" ?cl
        "get_call ''abc'' (UserFn 7) ?w" ?cl now fault "[]"] r num
    by blast
  have b: "sys_exec (\<lambda>v. None) (\<lambda>n. []) now (Deliver (length (sent ?w)) fault []) (get_call ''abc'' (UserFn 7) ?w, no_docs)
       = Inr (emit (Invoke 7 (case get_spec (opts ?w) no_docs fault ''abc'' now of
                                None \<Rightarrow> Cb_none | Some src \<Rightarrow> Cb_session src))
                (get_call ''abc'' (UserFn 7) ?w), no_docs)" for now fault
    using get_reports [of "''abc''" 7 ?w "\<lambda>v. None" "\<lambda>n. []" "[]" no_docs
        "get_call ''abc'' (UserFn 7) ?w" no_docs now fault "[]"] r num0
    by blast
  have g1: "get_spec (opts ?w) ?cl None ''abc'' 500 = Some ?src"
    by (simp add: get_spec_def stale_def write_timestamp_def)
  have g2: "get_spec (opts ?w) ?cl None ''abc'' 1500 = None"
    by (simp add: get_spec_def stale_def write_timestamp_def)
  have g3: "get_spec (opts ?w) ?cl (Some (StoreError ''timeout'')) ''abc'' 500 = None"
    by (simp add: get_spec_def)
  have g4: "get_spec (opts ?w) no_docs None ''abc'' 500 = None"
    by (simp add: get_spec_def no_docs_def)
  from a[of 500 None] a[of 1500 None] a[of 500 "Some (StoreError ''timeout'')"] b[of 500 None]
  show ?thesis
    unfolding g1 g2 g3 g4 by simp
qed

text \<open>
  C2, as stated, fails: \<open>set\<close> schedules no timer. In a store just constructed,
  \<^verbatim>\<open>set("abc", {user: 1}, cb)\<close> at time 0 sends the index request and nothing else: no
  timer is armed and \<^verbatim>\<open>this.timeouts\<close> has no entry for the key.
\<close>

theorem set_schedules_timer_counterexample:
  "\<exists>w'. set_call ''abc'' 0 (UserFn 7) 0 (ESStore ttl_1000 [0 \<mapsto> [(''user'', JNum 1)]]) = Inr w'
     \<and> timers w' = [] \<and> timeouts w' ''abc'' = None
     \<and> trace w' =
         [Sent (Search_req ''express'' ''session'') K_search,
          Sent (Index_req ''express'' ''session'' ''abc''
                  [(''user'', JNum 1), (''timestamp'', JNum 0)]) (K_set (UserFn 7))]"
  by (simp add: set_call_def Let_def ESStore_def initialSessionTimeout_call_def pSid_def
      util_extend_def defaults_def ttl_1000_def)

text \<open>
  C2, amended. \<open>set\<close> stamps the payload with the current write timestamp and sends
  the stamped payload as the whole document under the prefixed storage key (an index
  request, which replaces the document); it neither arms nor cancels a timer, and
  \<^verbatim>\<open>this.timeouts\<close> is left as it was. The callback receives the error of the
  persistence step only (\<^verbatim>\<open>cb(e)\<close>, the reply body is dropped), and what is not a
  function is not called.
\<close>

theorem set_persists_and_leaves_timers:
  assumes "heap w p = Some sess"
  shows "\<exists>w'. set_call sid p cb now w = Inr w'
     \<and> trace w' = trace w @
          [Sent (Index_req (index (opts w)) (typeName (opts w)) (pSid (opts w) sid)
                   (obj_put ''timestamp'' (JNum now) sess)) (K_set cb)]
     \<and> snd (es_index None (pSid (opts w) sid) (obj_put ''timestamp'' (JNum now) sess) d)
          (pSid (opts w) sid) = Some (obj_put ''timestamp'' (JNum now) sess)
     \<and> timers w' = timers w \<and> timeouts w' = timeouts w \<and> next_timer w' = next_timer w
     \<and> set_cb (UserFn c) e r w'' = Inr (emit (Invoke c (Cb_err e)) w'')
     \<and> set_cb NotFn e r w'' = Inr w''"
  using assms by (simp add: set_call_def Let_def es_index_def set_cb_def)

theorem set_persists_and_leaves_timers_witness:
  "\<exists>w'. set_call ''abc'' 0 (UserFn 7) 0 (ESStore ttl_1000 [0 \<mapsto> [(''user'', JNum 1)]]) = Inr w'
     \<and> timers w' = []
     \<and> set_cb (UserFn 7) (Some (StoreError ''timeout'')) None w'
         = Inr (emit (Invoke 7 (Cb_err (Some (StoreError ''timeout'')))) w')"
proof -
  have h: "heap (ESStore ttl_1000 [0 \<mapsto> [(''user'', JNum 1)]]) 0 = Some [(''user'', JNum 1)]"
    by (simp add: ESStore_def initialSessionTimeout_call_def)
  have t: "timers (ESStore ttl_1000 [0 \<mapsto> [(''user'', JNum 1)]]) = []"
    by (simp add: ESStore_def initialSessionTimeout_call_def)
  from set_persists_and_leaves_timers [OF h, of "''abc''" "UserFn 7" 0 Map.empty 7
      "Some (StoreError ''timeout'')" None]
  show ?thesis unfolding t by blast
qed

text \<open>
  C3. In every state the store reaches from its construction (by calls of \<open>get\<close>,
  \<open>set\<close>, \<open>destroy\<close> and \<open>touch\<close>, replies of the client, timers firing, in any
  order), a storage key has at most one armed timer. Scheduling for a key that
  \<^verbatim>\<open>this.timeouts\<close> holds a handle for clears that handle first and then arms the new
  timer, after which the cleared handle is not armed and the key's only armed timer is the
  new one; two \<open>touch\<close> calls in a row on the same id leave exactly one armed timer for
  its key, armed at the time of the later call with the full TTL. (The constructor is the
  only caller of \<open>initialSessionTimeout\<close>, which resets \<^verbatim>\<open>this.timeouts\<close>.)
\<close>

theorem at_most_one_live_timer:
  assumes "run sn acts (ESStore u h) = Inr w"
  shows "length (live_timers w k) \<le> 1
     \<and> (\<forall>h0. timeouts w (pSid (opts w) sid) = Some h0 \<longrightarrow>
           trace (sessionTimeout sid now w) =
             trace w @ [ClearTimeout h0, SetTimeout (next_timer w) sid (ttl (opts w))]
           \<and> h0 \<notin> t_handle ` set (timers (sessionTimeout sid now w)))
     \<and> live_timers (sessionTimeout sid now w) (pSid (opts w) sid)
           = [Timer (next_timer w) sid now (ttl (opts w))]
     \<and> live_timers (touch_call sid p2 cb2 t2 (touch_call sid p1 cb1 t1 w)) (pSid (opts w) sid)
           = [Timer (Suc (next_timer w)) sid t2 (ttl (opts w))]"
proof -
  from run_inv[OF assms ESStore_inv] have inv: "timers_inv w" by simp
  have one: "length (live_timers w k) \<le> 1" by (rule inv_at_most_one[OF inv])
  have cancel: "\<forall>h0. timeouts w (pSid (opts w) sid) = Some h0 \<longrightarrow>
           trace (sessionTimeout sid now w) =
             trace w @ [ClearTimeout h0, SetTimeout (next_timer w) sid (ttl (opts w))]
           \<and> h0 \<notin> t_handle ` set (timers (sessionTimeout sid now w))"
  proof (intro allI impI conjI)
    fix h0 assume h0: "timeouts w (pSid (opts w) sid) = Some h0"
    then show "trace (sessionTimeout sid now w) =
             trace w @ [ClearTimeout h0, SetTimeout (next_timer w) sid (ttl (opts w))]"
      by (simp add: sessionTimeout_trace)
    from inv h0 have "h0 < next_timer w" by (simp add: timers_inv_def)
    with h0 show "h0 \<notin> t_handle ` set (timers (sessionTimeout sid now w))"
      by (auto simp: sessionTimeout_timers)
  qed
  have first: "live_timers (sessionTimeout sid now w) (pSid (opts w) sid)
           = [Timer (next_timer w) sid now (ttl (opts w))]"
    by (rule inv_sessionTimeout_live[OF inv])
  have inv1: "timers_inv (touch_call sid p1 cb1 t1 w)" by (rule touch_call_inv[OF inv])
  have two: "live_timers (touch_call sid p2 cb2 t2 (touch_call sid p1 cb1 t1 w)) (pSid (opts w) sid)
           = [Timer (Suc (next_timer w)) sid t2 (ttl (opts w))]"
    using inv_sessionTimeout_live[OF inv1, of sid t2]
    by (simp add: live_timers_touch touch_call_fields)
  from one cancel first two show ?thesis by blast
qed

text \<open>
  Two \<open>touch\<close> calls on \<^verbatim>\<open>abc\<close> at 0 and at 1 in a store just constructed: the
  second clears the handle of the first.
\<close>

theorem at_most_one_live_timer_witness:
  "length (live_timers (touch_call ''abc'' 0 NotFn 1 (touch_call ''abc'' 0 NotFn 0
             (ESStore ttl_1000 Map.empty))) ''abc'') \<le> 1
   \<and> live_timers (touch_call ''abc'' 0 NotFn 1 (touch_call ''abc'' 0 NotFn 0
             (ESStore ttl_1000 Map.empty))) ''abc'' = [Timer 1 ''abc'' 1 1000]
   \<and> trace (sessionTimeout ''abc'' 1 (touch_call ''abc'' 0 NotFn 0 (ESStore ttl_1000 Map.empty)))
       = trace (touch_call ''abc'' 0 NotFn 0 (ESStore ttl_1000 Map.empty))
           @ [ClearTimeout 0, SetTimeout 1 ''abc'' 1000]"
proof -
  let ?w0 = "ESStore ttl_1000 Map.empty"
  let ?w1 = "touch_call ''abc'' 0 NotFn 0 ?w0"
  let ?w2 = "touch_call ''abc'' 0 NotFn 1 ?w1"
  have r0: "run (\<lambda>v. None) [] ?w0 = Inr ?w0"
    by simp
  have r1: "run (\<lambda>v. None) [(0, Call_touch ''abc'' 0 NotFn)] ?w0 = Inr ?w1"
    by simp
  have r2: "run (\<lambda>v. None) [(0, Call_touch ''abc'' 0 NotFn), (1, Call_touch ''abc'' 0 NotFn)] ?w0
              = Inr ?w2"
    by simp
  have held: "timeouts ?w1 (pSid (opts ?w1) ''abc'') = Some 0"
    by (simp add: touch_call_fields sessionTimeout_timeouts ESStore_fields pSid_def)
  from at_most_one_live_timer [OF r2, of "''abc''"]
  have a: "length (live_timers ?w2 ''abc'') \<le> 1"
    by blast
  from at_most_one_live_timer [OF r0, of _ "''abc''" _ 0 NotFn 1 0 NotFn 0]
  have b: "live_timers ?w2 ''abc'' = [Timer 1 ''abc'' 1 1000]"
    by (simp add: pSid_def ESStore_fields)
  from at_most_one_live_timer [OF r1, of _ "''abc''" 1] held
  have c: "trace (sessionTimeout ''abc'' 1 ?w1) = trace ?w1 @ [ClearTimeout 0, SetTimeout 1 ''abc'' 1000]"
    by (simp add: touch_call_fields ESStore_fields)
  from a b c show ?thesis by blast
qed

text \<open>
  C4, as stated, fails: \<open>destroy\<close> cancels nothing. After \<^verbatim>\<open>touch("abc")\<close> at time 0
  and \<^verbatim>\<open>destroy("abc", cb)\<close>, the timer that \<open>touch\<close> armed is still armed, and when it
  fires it sends a second delete request for the same key.
\<close>

theorem destroy_cancels_timer_counterexample:
  "timers (destroy_call ''abc'' (UserFn 7) (touch_call ''abc'' 0 NotFn 0
             (ESStore ttl_1000 Map.empty))) = [Timer 0 ''abc'' 0 1000]
   \<and> trace (fire 0 (destroy_call ''abc'' (UserFn 7) (touch_call ''abc'' 0 NotFn 0
             (ESStore ttl_1000 Map.empty)))) =
       [Sent (Search_req ''express'' ''session'') K_search,
        SetTimeout 0 ''abc'' 1000,
        Sent (Update_req ''express'' ''session'' ''abc'' (Script touch_inline ''painless'' 0))
          (K_touch NotFn),
        Sent (Delete_req ''express'' ''session'' ''abc'') (K_destroy (UserFn 7)),
        Sent (Delete_req ''express'' ''session'' ''abc'') (K_destroy NotFn)]"
  by (simp add: fire_def destroy_call_def touch_call_fields sessionTimeout_timers
      sessionTimeout_trace ESStore_fields pSid_def)

text \<open>
  C4, amended. \<open>destroy\<close> sends a delete request for the prefixed storage key and
  passes the removal's outcome to the callback (\<^verbatim>\<open>cb(e, r)\<close>; what is not a function
  is not called). It cancels no timer and leaves \<^verbatim>\<open>this.timeouts\<close> as it is: a timer
  armed for the id stays armed.
\<close>

theorem destroy_removes_and_leaves_timers:
  "trace (destroy_call sid cb w) =
     trace w @ [Sent (Delete_req (index (opts w)) (typeName (opts w)) (pSid (opts w) sid))
                  (K_destroy cb)]
   \<and> timers (destroy_call sid cb w) = timers w
   \<and> timeouts (destroy_call sid cb w) = timeouts w
   \<and> destroy_cb (UserFn c) e r w' = Inr (emit (Invoke c (Cb_err_res e r)) w')
   \<and> destroy_cb NotFn e r w' = Inr w'"
  by (simp add: destroy_call_def destroy_cb_def)

text \<open>One instance: the destroy of the scenario above and the call of its callback.\<close>

theorem destroy_removes_and_leaves_timers_witness:
  "timers (destroy_call ''abc'' (UserFn 7) (touch_call ''abc'' 0 NotFn 0
             (ESStore ttl_1000 Map.empty)))
     = timers (touch_call ''abc'' 0 NotFn 0 (ESStore ttl_1000 Map.empty))
   \<and> destroy_cb (UserFn 7) (Some NotFound) None (ESStore ttl_1000 Map.empty)
     = Inr (emit (Invoke 7 (Cb_err_res (Some NotFound) None)) (ESStore ttl_1000 Map.empty))"
  using destroy_removes_and_leaves_timers
    [of "''abc''" "UserFn 7" "touch_call ''abc'' 0 NotFn 0 (ESStore ttl_1000 Map.empty)"
        7 "Some NotFound" None "ESStore ttl_1000 Map.empty"]
  by simp

text \<open>
  C5. \<open>touch\<close> reschedules the timer of the id first, whatever the state and the
  arguments: it clears the handle that \<^verbatim>\<open>this.timeouts\<close> holds for the key, if any, arms
  a timer with the full TTL and only then sends the update request for the prefixed key,
  whose script text is run by the server with the time of the call as \<^verbatim>\<open>params.now\<close>.
  The callback receives the outcome of the update (\<^verbatim>\<open>cb(e, r)\<close>), and the continuation
  changes no timer. When the server serves the request that was sent, on a record whose
  \<^verbatim>\<open>cookie\<close> has a numeric \<^verbatim>\<open>originalMaxAge\<close>, the script text leaves the record as it
  was but for \<^verbatim>\<open>cookie.expires\<close>, which becomes the instant
  \<^verbatim>\<open>now + cookie.originalMaxAge\<close>, and the callback is called with no error; when the
  transport fails, the record is untouched and the callback is called with the error.
\<close>

theorem touch_reschedules_then_updates:
  "trace (touch_call sid p cb now w) =
       trace w
       @ (case timeouts w (pSid (opts w) sid) of Some h \<Rightarrow> [ClearTimeout h] | None \<Rightarrow> [])
       @ [SetTimeout (next_timer w) sid (ttl (opts w)),
          Sent (Update_req (index (opts w)) (typeName (opts w)) (pSid (opts w) sid)
                  (Script touch_inline ''painless'' now)) (K_touch cb)]
   \<and> Timer (next_timer w) sid now (ttl (opts w)) \<in> set (timers (touch_call sid p cb now w))
   \<and> timeouts (touch_call sid p cb now w) (pSid (opts w) sid) = Some (next_timer w)
   \<and> touch_cb (UserFn c) e r w' = Inr (emit (Invoke c (Cb_err_res e r)) w')
   \<and> (\<forall>w''. touch_cb cb e r w' = Inr w'' \<longrightarrow> timers w'' = timers w' \<and> timeouts w'' = timeouts w')
   \<and> (sys_run sn fmt acts (touch_call sid p (UserFn c) now w, cl0) = Inr (w1, cl)
       \<and> cl (index (opts w), typeName (opts w)) (prefix (opts w) @ sid) = Some src
       \<and> map_of src ''cookie'' = Some (JObj cookie)
       \<and> map_of cookie ''originalMaxAge'' = Some (JNum age)
      \<longrightarrow> sys_exec sn fmt t (Deliver (length (sent w)) None ids) (w1, cl) =
            Inr (emit (Invoke c (Cb_err_res None
                                   (Some (JObj [(''_id'', JStr (prefix (opts w) @ sid))])))) w1,
                 cl((index (opts w), typeName (opts w)) :=
                      (cl (index (opts w), typeName (opts w)))
                        (prefix (opts w) @ sid \<mapsto>
                           obj_put ''cookie''
                             (JObj (obj_put ''expires'' (JStr (fmt (now + age))) cookie)) src)))
          \<and> (\<forall>k. k \<noteq> ''cookie'' \<longrightarrow>
                map_of (obj_put ''cookie''
                          (JObj (obj_put ''expires'' (JStr (fmt (now + age))) cookie)) src) k
                  = map_of src k)
          \<and> (\<forall>k. k \<noteq> ''expires'' \<longrightarrow>
                map_of (obj_put ''expires'' (JStr (fmt (now + age))) cookie) k = map_of cookie k))
   \<and> (sys_run sn fmt acts (touch_call sid p (UserFn c) now w, cl0) = Inr (w1, cl)
      \<longrightarrow> sys_exec sn fmt t (Deliver (length (sent w)) (Some err) ids) (w1, cl) =
            Inr (emit (Invoke c (Cb_err_res (Some err) None)) w1, cl))"
proof (intro conjI allI impI)
  show "trace (touch_call sid p cb now w) =
       trace w
       @ (case timeouts w (pSid (opts w) sid) of Some h \<Rightarrow> [ClearTimeout h] | None \<Rightarrow> [])
       @ [SetTimeout (next_timer w) sid (ttl (opts w)),
          Sent (Update_req (index (opts w)) (typeName (opts w)) (pSid (opts w) sid)
                  (Script touch_inline ''painless'' now)) (K_touch cb)]"
    by (simp add: touch_call_fields sessionTimeout_trace)
  show "Timer (next_timer w) sid now (ttl (opts w)) \<in> set (timers (touch_call sid p cb now w))"
    by (simp add: touch_call_fields sessionTimeout_timers)
  show "timeouts (touch_call sid p cb now w) (pSid (opts w) sid) = Some (next_timer w)"
    by (simp add: touch_call_fields sessionTimeout_timeouts)
  show "touch_cb (UserFn c) e r w' = Inr (emit (Invoke c (Cb_err_res e r)) w')"
    by (simp add: touch_cb_def)
next
  fix w'' assume "touch_cb cb e r w' = Inr w''"
  then show "timers w'' = timers w'" "timeouts w'' = timeouts w'"
    by (auto simp: touch_cb_def split: if_splits dest: call_fields)
next
  let ?key = "prefix (opts w) @ sid"
  let ?rq = "Update_req (index (opts w)) (typeName (opts w)) ?key
               (Script touch_inline ''painless'' now)"
  assume a: "sys_run sn fmt acts (touch_call sid p (UserFn c) now w, cl0) = Inr (w1, cl)
       \<and> cl (index (opts w), typeName (opts w)) ?key = Some src
       \<and> map_of src ''cookie'' = Some (JObj cookie)
       \<and> map_of cookie ''originalMaxAge'' = Some (JNum age)"
  then have r: "sys_run sn fmt acts (touch_call sid p (UserFn c) now w, cl0) = Inr (w1, cl)"
    by simp
  have n: "length (sent w) < length (sent (touch_call sid p (UserFn c) now w))"
    by (simp add: sent_touch_call)
  from sys_run_sent[OF r n] have
    s: "length (sent w) < length (sent w1)"
       "sent w1 ! length (sent w) = (?rq, K_touch (UserFn c))"
    by (simp_all add: sent_touch_call)
  from a have p: "painless fmt now src touch_inline
      = Some (obj_put ''cookie'' (JObj (obj_put ''expires'' (JStr (fmt (now + age))) cookie)) src)"
    by (simp add: painless_touch_inline)
  from a s p show "sys_exec sn fmt t (Deliver (length (sent w)) None ids) (w1, cl) =
            Inr (emit (Invoke c (Cb_err_res None (Some (JObj [(''_id'', JStr ?key)])))) w1,
                 cl((index (opts w), typeName (opts w)) :=
                      (cl (index (opts w), typeName (opts w)))
                        (?key \<mapsto>
                           obj_put ''cookie''
                             (JObj (obj_put ''expires'' (JStr (fmt (now + age))) cookie)) src)))"
    by (simp add: es_update_def touch_cb_def)
  show "map_of (obj_put ''cookie''
                  (JObj (obj_put ''expires'' (JStr (fmt (now + age))) cookie)) src) k
          = map_of src k" if "k \<noteq> ''cookie''" for k
    using that by (simp add: map_of_obj_put)
  show "map_of (obj_put ''expires'' (JStr (fmt (now + age))) cookie) k = map_of cookie k"
    if "k \<noteq> ''expires''" for k
    using that by (simp add: map_of_obj_put)
next
  let ?key = "prefix (opts w) @ sid"
  let ?rq = "Update_req (index (opts w)) (typeName (opts w)) ?key
               (Script touch_inline ''painless'' now)"
  assume r: "sys_run sn fmt acts (touch_call sid p (UserFn c) now w, cl0) = Inr (w1, cl)"
  have n: "length (sent w) < length (sent (touch_call sid p (UserFn c) now w))"
    by (simp add: sent_touch_call)
  from sys_run_sent[OF r n] have
    s: "length (sent w) < length (sent w1)"
       "sent w1 ! length (sent w) = (?rq, K_touch (UserFn c))"
    by (simp_all add: sent_touch_call)
  from s show "sys_exec sn fmt t (Deliver (length (sent w)) (Some err) ids) (w1, cl) =
            Inr (emit (Invoke c (Cb_err_res (Some err) None)) w1, cl)"
    by (simp add: es_update_def touch_cb_def)
qed

text \<open>
  The scenario: \<open>touch\<close> at 900 in a store just constructed, on a record whose cookie
  has an \<^verbatim>\<open>originalMaxAge\<close> of one minute, served at 901.
\<close>

theorem touch_reschedules_then_updates_witness:
  "sys_exec (\<lambda>v. None) fmt_scenario 901 (Deliver 1 None [])
       (touch_call ''abc'' 0 (UserFn 7) 900 (ESStore ttl_1000 Map.empty),
        no_docs((''express'', ''session'') :=
          [''abc'' \<mapsto> [(''cookie'', JObj [(''originalMaxAge'', JNum 60000), (''expires'', JNull)]),
                        (''user'', JNum 1), (''timestamp'', JNum 0)]]))
     = Inr (emit (Invoke 7 (Cb_err_res None (Some (JObj [(''_id'', JStr ''abc'')]))))
              (touch_call ''abc'' 0 (UserFn 7) 900 (ESStore ttl_1000 Map.empty)),
            no_docs((''express'', ''session'') :=
              [''abc'' \<mapsto> [(''cookie'', JObj [(''originalMaxAge'', JNum 60000),
                                               (''expires'', JStr ''1970-01-01T00:01:00.900Z'')]),
                            (''user'', JNum 1), (''timestamp'', JNum 0)]]))
   \<and> trace (touch_call ''abc'' 0 (UserFn 7) 900 (ESStore ttl_1000 Map.empty)) =
       [Sent (Search_req ''express'' ''session'') K_search,
        SetTimeout 0 ''abc'' 1000,
        Sent (Update_req ''express'' ''session'' ''abc'' (Script touch_inline ''painless'' 900))
          (K_touch (UserFn 7))]"
proof -
  let ?w = "ESStore ttl_1000 Map.empty"
  let ?cookie = "[(''originalMaxAge'', JNum 60000), (''expires'', JNull)]"
  let ?src = "[(''cookie'', JObj ?cookie), (''user'', JNum 1), (''timestamp'', JNum 0)]"
  let ?cl = "no_docs((''express'', ''session'') := [''abc'' \<mapsto> ?src])"
  have r: "sys_run (\<lambda>v. None) fmt_scenario [] (touch_call ''abc'' 0 (UserFn 7) 900 ?w, ?cl)
             = Inr (touch_call ''abc'' 0 (UserFn 7) 900 ?w, ?cl)"
    by simp
  have d: "?cl (index (opts ?w), typeName (opts ?w)) (prefix (opts ?w) @ ''abc'') = Some ?src"
    by simp
  have c1: "map_of ?src ''cookie'' = Some (JObj ?cookie)" by simp
  have c2: "map_of ?cookie ''originalMaxAge'' = Some (JNum 60000)" by simp
  from touch_reschedules_then_updates
    [of "''abc''" 0 "UserFn 7" 900 ?w 7 None None ?w "\<lambda>v. None" fmt_scenario "[]" ?cl
        "touch_call ''abc'' 0 (UserFn 7) 900 ?w" ?cl ?src ?cookie 60000 901 "[]"]
    r d c1 c2
  show ?thesis
    by (simp add: pSid_def ESStore_fields fmt_scenario_def no_docs_def)
qed

text \<open>
  C6 fails on the code for a prefix that is not empty. The scan's hits carry storage
  keys, and the continuation passes each to \<open>sessionTimeout\<close>, which takes a session
  id and prefixes it again. With the prefix \<^verbatim>\<open>sess:\<close> and the record \<^verbatim>\<open>sess:abc\<close> in
  the index, the timer is registered under \<^verbatim>\<open>sess:sess:abc\<close> and its firing deletes
  \<^verbatim>\<open>sess:sess:abc\<close>; the record \<^verbatim>\<open>sess:abc\<close> has no timer. (Lemma
  \<open>recovery_scan_arms_each_hit\<close> is the scan's effect for any prefix; for the empty
  prefix it is what the claim says.)
\<close>

theorem recovery_scan_prefixed:
  "\<exists>w. initialSessionTimeout_cb None
          (Some (Search_body (Some (Hits_obj (Some [Hit ''sess:abc''])))))
          0 (ESStore ttl_1000_prefixed Map.empty) = Inr w
     \<and> timers w = [Timer 0 ''sess:abc'' 0 1000]
     \<and> timeouts w ''sess:sess:abc'' = Some 0
     \<and> timeouts w ''sess:abc'' = None
     \<and> live_timers w ''sess:abc'' = []
     \<and> trace (fire 0 w) = trace w @
          [Sent (Delete_req ''express'' ''session'' ''sess:sess:abc'') (K_destroy NotFn)]"
  by (simp add: initialSessionTimeout_cb_def sessionTimeout_timers sessionTimeout_timeouts
      ESStore_fields live_timers_def fire_def destroy_call_def pSid_def
      ESStore_def initialSessionTimeout_call_def util_extend_def defaults_def
      ttl_1000_prefixed_def ttl_1000_def)

text \<open>
  C7 fails on the code. When the search reports an error, the continuation logs it and
  goes on to read \<^verbatim>\<open>r.hits.hits\<close>: with no reply body, or with a body that has no
  \<^verbatim>\<open>hits\<close>, this throws a \<^verbatim>\<open>TypeError\<close> out of the continuation, and the run ends
  there.
\<close>

theorem recovery_scan_throws_on_error:
  "initialSessionTimeout_cb (Some (StoreError ''No Living connections'')) None 0
       (ESStore ttl_1000 Map.empty) = Inl TypeError
   \<and> initialSessionTimeout_cb (Some NotFound) (Some (Search_body None)) 0
       (ESStore ttl_1000 Map.empty) = Inl TypeError
   \<and> run (\<lambda>v. None) [(0, Reply_search (Some (StoreError ''No Living connections'')) None),
                        (1, Call_get ''abc'' (UserFn 7))]
       (ESStore ttl_1000 Map.empty) = Inl TypeError"
  by (simp add: initialSessionTimeout_cb_def)

text \<open>
  C8, as stated, fails: what \<open>get\<close> reports is not equal to the payload that was
  passed to \<open>set\<close>. With a TTL of one second, \<^verbatim>\<open>set("abc", {user: 1})\<close> at 0, served
  at 1, and \<^verbatim>\<open>get("abc", cb)\<close> at 500 call \<^verbatim>\<open>cb(null, {user: 1, timestamp: 0})\<close>.
\<close>

theorem round_trip_equal_counterexample:
  "\<exists>w cl. sys_run (\<lambda>v. None) (\<lambda>n. [])
            [(0, Process (Call_set ''abc'' 0 NotFn)), (1, Deliver 1 None []),
             (500, Process (Call_get ''abc'' (UserFn 7))), (500, Deliver 2 None [])]
            (ESStore ttl_1000 [0 \<mapsto> [(''user'', JNum 1)]], no_docs) = Inr (w, cl)
     \<and> last (trace w) = Invoke 7 (Cb_session [(''user'', JNum 1), (''timestamp'', JNum 0)])
     \<and> [(''user'', JNum 1), (''timestamp'', JNum 0)] \<noteq> [(''user'', JNum 1)]"
  by (simp add: set_call_def Let_def ESStore_fields sent_emit sent_get_call get_call_def pSid_def
      sent_def es_index_def es_get_def set_cb_def get_cb_def expired_def obj_get_def no_docs_def)

text \<open>
  C8, amended. Let \<open>set\<close> be called at \<open>t_set\<close> with the caller's object \<open>P\<close>, let
  the index request it sent be served without failure, let \<open>get\<close> be called for the
  same id later, and let the record under the key be, when the fetch is served, the one
  the index request left (no destroy, expiry or other write of it in between), whatever
  other turns are taken. Then, for a fetch served without failure at any time \<open>t_get\<close>
  with \<open>t_get - t_set < ttl\<close>, \<open>get\<close> reports \<open>P\<close> with its \<^verbatim>\<open>timestamp\<close> property
  set to \<open>t_set\<close>: this is the caller's object as \<open>set\<close> left it, and it is equal to
  \<open>P\<close> as passed on every property but \<^verbatim>\<open>timestamp\<close>.
\<close>

theorem set_then_get_round_trip:
  assumes "heap w p = Some P"
      and "set_call sid p cb_set t_set w = Inr w1"
      and "sys_run sn fmt acts1 (w1, cl1) = Inr (w2, cl2)"
      and "sys_exec sn fmt t_ack (Deliver (length (sent w)) None ids) (w2, cl2) = Inr (w3, cl3)"
      and "sys_run sn fmt acts2 (w3, cl3) = Inr (w4, cl4)"
      and "sys_run sn fmt acts3 (get_call sid (UserFn cb) w4, cl4) = Inr (w5, cl5)"
      and "cl5 (index (opts w), typeName (opts w)) (prefix (opts w) @ sid)
             = cl3 (index (opts w), typeName (opts w)) (prefix (opts w) @ sid)"
      and "t_get - t_set < ttl (opts w)"
  shows "sys_exec sn fmt t_get (Deliver (length (sent w4)) None ids') (w5, cl5)
           = Inr (emit (Invoke cb (Cb_session (obj_put ''timestamp'' (JNum t_set) P))) w5, cl5)
     \<and> heap w1 p = Some (obj_put ''timestamp'' (JNum t_set) P)
     \<and> map_of (obj_put ''timestamp'' (JNum t_set) P) ''timestamp'' = Some (JNum t_set)
     \<and> (\<forall>k. k \<noteq> ''timestamp'' \<longrightarrow>
           map_of (obj_put ''timestamp'' (JNum t_set) P) k = map_of P k)"
proof -
  let ?key = "prefix (opts w) @ sid"
  let ?it = "(index (opts w), typeName (opts w))"
  let ?P' = "obj_put ''timestamp'' (JNum t_set) P"
  note s1 = set_call_result[OF assms(1,2)]
  have n1: "length (sent w) < length (sent w1)" by (simp add: s1(3))
  from sys_run_sent[OF assms(3) n1] have
    s2: "length (sent w) < length (sent w2)"
        "sent w2 ! length (sent w) = (Index_req (index (opts w)) (typeName (opts w)) ?key ?P',
                                      K_set cb_set)"
    by (simp_all add: s1(3))
  from sys_run_keeps[OF assms(3)] s1(1) have o2: "opts w2 = opts w" by simp
  from assms(4) s2 have cl3: "cl3 = cl2(?it := (cl2 ?it)(?key \<mapsto> ?P'))"
    by (auto simp: es_index_def split: sum.splits)
  from sys_exec_keeps[OF assms(4)] o2 have o3: "opts w3 = opts w" by simp
  from sys_run_keeps[OF assms(5)] o3 have o4: "opts w4 = opts w" by simp
  from sys_run_keeps[OF assms(6)] o4 have o5: "opts w5 = opts w" by (simp add: get_call_def)
  have n4: "length (sent w4) < length (sent (get_call sid (UserFn cb) w4))"
    by (simp add: sent_get_call)
  from sys_run_sent[OF assms(6) n4] o4 have
    s5: "length (sent w4) < length (sent w5)"
        "sent w5 ! length (sent w4) = (Get_req (index (opts w)) (typeName (opts w)) ?key,
                                       K_get (UserFn cb))"
    by (simp_all add: sent_get_call)
  from assms(7) cl3 have d: "cl5 ?it ?key = Some ?P'" by simp
  have fresh: "\<not> expired sn (opts w) t_get ?P'"
    using assms(8) by (simp add: expired_def obj_get_obj_put)
  have "sys_exec sn fmt t_get (Deliver (length (sent w4)) None ids') (w5, cl5)
           = Inr (emit (Invoke cb (Cb_session ?P')) w5, cl5)"
    using s5 d fresh o5 by (simp add: es_get_def get_cb_def Let_def)
  then show ?thesis by (simp add: s1(2) map_of_obj_put)
qed

text \<open>
  The scenario of the TTL of one second: \<^verbatim>\<open>set("abc", {user: 1})\<close> at 0, served at 1,
  and \<open>get\<close> at 500.
\<close>

theorem set_then_get_round_trip_witness:
  "\<exists>w1 w3 cl3. set_call ''abc'' 0 NotFn 0 (ESStore ttl_1000 [0 \<mapsto> [(''user'', JNum 1)]]) = Inr w1
     \<and> sys_exec (\<lambda>v. None) (\<lambda>n. []) 1 (Deliver 1 None []) (w1, no_docs) = Inr (w3, cl3)
     \<and> sys_exec (\<lambda>v. None) (\<lambda>n. []) 500 (Deliver 2 None [])
          (get_call ''abc'' (UserFn 7) w3, cl3)
        = Inr (emit (Invoke 7 (Cb_session [(''user'', JNum 1), (''timestamp'', JNum 0)]))
                 (get_call ''abc'' (UserFn 7) w3), cl3)"
proof -
  let ?w = "ESStore ttl_1000 [0 \<mapsto> [(''user'', JNum 1)]]"
  have h: "heap ?w 0 = Some [(''user'', JNum 1)]" by (simp add: ESStore_fields)
  obtain w1 where s: "set_call ''abc'' 0 NotFn 0 ?w = Inr w1"
    using h by (simp add: set_call_def Let_def)
  have r1: "sys_run (\<lambda>v. None) (\<lambda>n. []) [] (w1, no_docs) = Inr (w1, no_docs)" by simp
  obtain w3 cl3 where
    d: "sys_exec (\<lambda>v. None) (\<lambda>n. []) 1 (Deliver (length (sent ?w)) None []) (w1, no_docs)
          = Inr (w3, cl3)"
    using set_call_result(3)[OF h s]
    by (simp add: es_index_def set_cb_def)
  have r2: "sys_run (\<lambda>v. None) (\<lambda>n. []) [] (w3, cl3) = Inr (w3, cl3)" by simp
  have r3: "sys_run (\<lambda>v. None) (\<lambda>n. []) [] (get_call ''abc'' (UserFn 7) w3, cl3)
              = Inr (get_call ''abc'' (UserFn 7) w3, cl3)" by simp
  have t: "(500::int) - 0 < ttl (opts ?w)" by simp
  have n3: "length (sent w3) = 2"
    using d set_call_result(3)[OF h s] by (auto simp: es_index_def set_cb_def)
  from set_then_get_round_trip [OF h s r1 d r2 r3 refl t, of "[]"]
  have "sys_exec (\<lambda>v. None) (\<lambda>n. []) 500 (Deliver (length (sent w3)) None [])
          (get_call ''abc'' (UserFn 7) w3, cl3)
        = Inr (emit (Invoke 7 (Cb_session (obj_put ''timestamp'' (JNum 0) [(''user'', JNum 1)])))
                 (get_call ''abc'' (UserFn 7) w3), cl3)"
    by blast
  with s d n3 show ?thesis by auto
qed

text \<open>
  C9, as stated, fails: a timer that fires removes nothing from \<^verbatim>\<open>this.timeouts\<close>.
  After \<^verbatim>\<open>touch("abc")\<close> and the firing of its timer, no timer is armed and the mapping
  still holds the fired timer's handle for the key.
\<close>

theorem fire_removes_entry_counterexample:
  "timers (fire 0 (touch_call ''abc'' 0 NotFn 0 (ESStore ttl_1000 Map.empty))) = []
   \<and> timeouts (fire 0 (touch_call ''abc'' 0 NotFn 0 (ESStore ttl_1000 Map.empty))) ''abc''
       = Some 0"
  by (simp add: fire_def destroy_call_def touch_call_fields sessionTimeout_timers
      sessionTimeout_timeouts ESStore_fields pSid_def)

text \<open>
  C9, amended. When an armed timer fires, it is disarmed and calls \<open>destroy\<close> for the
  id it was armed with, with no callback: a delete request for the prefixed key is sent.
  \<^verbatim>\<open>this.timeouts\<close> is left as it is, so it goes on holding the fired timer's handle for
  the key (until the next scheduling for the key overwrites it).
\<close>

theorem fire_destroys_and_keeps_entry:
  assumes "run sn acts (ESStore u h) = Inr w" and "t \<in> set (timers w)"
  shows "trace (fire (t_handle t) w) =
           trace w @ [Sent (Delete_req (index (opts w)) (typeName (opts w))
                              (pSid (opts w) (t_sid t))) (K_destroy NotFn)]
     \<and> set (timers (fire (t_handle t) w)) = set (timers w) - {t}
     \<and> timeouts (fire (t_handle t) w) = timeouts w
     \<and> timeouts (fire (t_handle t) w) (pSid (opts w) (t_sid t)) = Some (t_handle t)"
proof -
  from run_inv[OF assms(1) ESStore_inv] have inv: "timers_inv w" by simp
  then have d: "distinct (map t_handle (timers w))" by (simp add: timers_inv_def)
  from inv assms(2) have k: "timeouts w (pSid (opts w) (t_sid t)) = Some (t_handle t)"
    by (simp add: timers_inv_def)
  have f: "find (\<lambda>y. t_handle y = t_handle t) (timers w) = Some t"
    by (rule find_distinct[OF d assms(2)])
  show ?thesis
    using f k filter_distinct[OF d assms(2)] by (simp add: fire_def destroy_call_def)
qed

theorem fire_destroys_and_keeps_entry_witness:
  "trace (fire 0 (touch_call ''abc'' 0 NotFn 0 (ESStore ttl_1000 Map.empty))) =
     trace (touch_call ''abc'' 0 NotFn 0 (ESStore ttl_1000 Map.empty)) @
       [Sent (Delete_req ''express'' ''session'' ''abc'') (K_destroy NotFn)]
   \<and> timeouts (fire 0 (touch_call ''abc'' 0 NotFn 0 (ESStore ttl_1000 Map.empty)))
       = timeouts (touch_call ''abc'' 0 NotFn 0 (ESStore ttl_1000 Map.empty))"
proof -
  have r: "run (\<lambda>v. None) [(0, Call_touch ''abc'' 0 NotFn)] (ESStore ttl_1000 Map.empty)
           = Inr (touch_call ''abc'' 0 NotFn 0 (ESStore ttl_1000 Map.empty))"
    by simp
  have t: "Timer 0 ''abc'' 0 1000
             \<in> set (timers (touch_call ''abc'' 0 NotFn 0 (ESStore ttl_1000 Map.empty)))"
    by (simp add: touch_call_fields sessionTimeout_timers ESStore_fields)
  from fire_destroys_and_keeps_entry [OF r t] show ?thesis
    by (simp add: touch_call_fields pSid_def)
qed

text \<open>
  C10. \<open>set\<close> writes into the caller's session object: after the call the object
  that the caller passed has \<^verbatim>\<open>timestamp\<close> equal to the time of the call, whatever
  \<^verbatim>\<open>timestamp\<close> it had before, its other properties and the caller's other objects
  are as they were, and the index request, sent after the assignment, carries the stamped
  object.
\<close>

theorem set_stamps_callers_object:
  assumes "heap w p = Some sess"
  shows "\<exists>w'. set_call sid p cb now w = Inr w'
     \<and> heap w' p = Some (obj_put ''timestamp'' (JNum now) sess)
     \<and> obj_get (obj_put ''timestamp'' (JNum now) sess) ''timestamp'' = Some (JNum now)
     \<and> (\<forall>k. k \<noteq> ''timestamp'' \<longrightarrow>
           obj_get (obj_put ''timestamp'' (JNum now) sess) k = obj_get sess k)
     \<and> (\<forall>q. q \<noteq> p \<longrightarrow> heap w' q = heap w q)
     \<and> trace w' = trace w @
          [Sent (Index_req (index (opts w)) (typeName (opts w)) (pSid (opts w) sid)
                   (obj_put ''timestamp'' (JNum now) sess)) (K_set cb)]"
  using assms by (simp add: set_call_def Let_def obj_get_obj_put)

text \<open>A session object whose \<^verbatim>\<open>timestamp\<close> the caller had set to a string.\<close>

theorem set_stamps_callers_object_witness:
  "\<exists>w'. set_call ''abc'' 0 (UserFn 7) 5
          (ESStore ttl_1000 [0 \<mapsto> [(''timestamp'', JStr ''mine''), (''user'', JNum 1)]]) = Inr w'
     \<and> heap w' 0 = Some [(''timestamp'', JNum 5), (''user'', JNum 1)]"
proof -
  have h: "heap (ESStore ttl_1000 [0 \<mapsto> [(''timestamp'', JStr ''mine''), (''user'', JNum 1)]]) 0
             = Some [(''timestamp'', JStr ''mine''), (''user'', JNum 1)]"
    by (simp add: ESStore_def initialSessionTimeout_call_def)
  from set_stamps_callers_object [OF h, of "''abc''" "UserFn 7" 5]
  obtain w' where
    "set_call ''abc'' 0 (UserFn 7) 5
       (ESStore ttl_1000 [0 \<mapsto> [(''timestamp'', JStr ''mine''), (''user'', JNum 1)]]) = Inr w'"
    "heap w' 0 = Some (obj_put ''timestamp'' (JNum 5) [(''timestamp'', JStr ''mine''), (''user'', JNum 1)])"
    by blast
  then show ?thesis by simp
qed

end
